theory Spec2Isabelle
  imports Main "HOL-Library.AList"
begin

section \<open>The import job engine of plastron: model\<close>

text \<open>
  A shallow embedding of \<^verbatim>\<open>plastron/jobs/imports/__init__.py\<close> (the classes
  \<^verbatim>\<open>ImportConfig\<close>, \<^verbatim>\<open>ImportJob\<close>, \<^verbatim>\<open>ImportRow\<close>, \<^verbatim>\<open>ImportRun\<close>) and of the class
  \<^verbatim>\<open>ItemLog\<close> of \<^verbatim>\<open>plastron/core/util.py\<close>. Python exceptions are values of the
  type \<open>error\<close>; mutation is explicit state passing; the collaborators whose code is
  not part of the translated files (the repository, the binary sources, the domain
  objects, the clock) appear as parameters.
\<close>

subsection \<open>Python strings\<close>

definition startswith :: "string \<Rightarrow> string \<Rightarrow> bool" where
  "startswith s p = (take (length p) s = p)"

definition endswith :: "string \<Rightarrow> string \<Rightarrow> bool" where
  "endswith s p = (length p \<le> length s \<and> drop (length s - length p) s = p)"

text \<open>\<^verbatim>\<open>sep.join(xs)\<close>\<close>

fun join :: "string \<Rightarrow> string list \<Rightarrow> string" where
  "join sep [] = []"
| "join sep [x] = x"
| "join sep (x # y # ys) = x @ sep @ join sep (y # ys)"

text \<open>\<^verbatim>\<open>s.split(c)\<close> for a separator of one character.\<close>

fun split :: "char \<Rightarrow> string \<Rightarrow> string list" where
  "split c [] = [[]]"
| "split c (x # xs) =
     (if x = c then [] # split c xs
      else (case split c xs of [] \<Rightarrow> [[x]] | w # ws \<Rightarrow> (x # w) # ws))"

text \<open>\<^verbatim>\<open>str(n)\<close> for a non-negative integer: its decimal digits.\<close>

definition digit :: "nat \<Rightarrow> char" where
  "digit d = char_of (48 + d)"

fun digits :: "nat \<Rightarrow> nat \<Rightarrow> string" where
  "digits 0 n = []"
| "digits (Suc fuel) n = (if n < 10 then [digit n] else digits fuel (n div 10) @ [digit (n mod 10)])"

definition str_nat :: "nat \<Rightarrow> string" where
  "str_nat n = digits (Suc n) n"

text \<open>
  \<^verbatim>\<open>os.path.join(a, b)\<close> with two arguments, as \<^verbatim>\<open>posixpath\<close> computes it: an absolute
  second component replaces the first; otherwise the two are joined by one separator
  unless the first is empty or already ends with one.
\<close>

definition os_path_join :: "string \<Rightarrow> string \<Rightarrow> string" where
  "os_path_join a b =
     (if startswith b ''/'' then b
      else if a = [] \<or> endswith a ''/'' then a @ b
      else a @ ''/'' @ b)"

subsection \<open>Exceptions\<close>

text \<open>
  \<open>JobError\<close> carries the constructor's arguments (the job rendered by its
  \<^verbatim>\<open>__str__\<close>, its id), \<open>ClientError\<close> its message and the text of its response; the
  other constructors carry the message.
\<close>

datatype error =
    RuntimeError string
  | JobError "string list"
  | TypeError string
  | KeyError string
  | ValueError string
  | AttributeError string
  | ClientError string string
  | RepositoryError string

subsection \<open>ItemLog\<close>

text \<open>
  The backing file is seen through the \<^verbatim>\<open>csv\<close> module: a sequence of lines, each a
  list of cells. A \<^verbatim>\<open>pathlib.Path\<close> is the list of its components. The file system
  maps a path to the lines of the file there, \<open>None\<close> where no file exists.
\<close>

type_synonym csv_line = "string list"
type_synonym csv_file = "csv_line list"
type_synonym path = "string list"
type_synonym filesystem = "path \<Rightarrow> csv_file option"

text \<open>
  The attributes \<^verbatim>\<open>fh\<close> and \<^verbatim>\<open>_writer\<close> (the handle opened for appending, line
  buffered) hold nothing that the file itself does not, and are left out. A key is
  \<open>Some s\<close> for the string \<open>s\<close> and \<open>None\<close> for Python's \<^verbatim>\<open>None\<close>, which
  \<^verbatim>\<open>csv.DictReader\<close> supplies for the missing cells of a short line.
\<close>

record ItemLog =
  filename :: path
  fieldnames :: "string list"
  keyfield :: string
  write_header :: bool
  item_keys :: "string option set"

definition ItemLog_exists :: "ItemLog \<Rightarrow> filesystem \<Rightarrow> bool" where
  "ItemLog_exists l fs = (fs (filename l) \<noteq> None)"

text \<open>\<^verbatim>\<open>create\<close>: open with mode \<^verbatim>\<open>w\<close> and write the header if there is to be one.\<close>

definition ItemLog_create :: "ItemLog \<Rightarrow> filesystem \<Rightarrow> filesystem" where
  "ItemLog_create l fs = fs(filename l \<mapsto> (if write_header l then [fieldnames l] else []))"

text \<open>
  One row of \<^verbatim>\<open>csv.DictReader\<close>: \<^verbatim>\<open>dict(zip(fieldnames, row))\<close>, a later field name
  winning over an earlier equal one, then \<^verbatim>\<open>None\<close> for the field names beyond a short
  row. (The cells beyond the field names go under the key \<^verbatim>\<open>None\<close>, which no field
  name addresses.)
\<close>

definition DictReader_row :: "string list \<Rightarrow> csv_line \<Rightarrow> (string \<rightharpoonup> string option)" where
  "DictReader_row fns r =
     map_of (rev (zip fns (map Some r @ replicate (length fns - length r) None)))"

text \<open>
  The file is opened in text mode with the default newline handling (lines 144, 155
  and 174 pass no \<^verbatim>\<open>newline=''\<close>). With the line separator of POSIX the text written
  stays as it is; the text read has every carriage return with a line feed after it,
  and every other carriage return, turned into a line feed, also inside a quoted cell.
\<close>

fun universal_newlines :: "string \<Rightarrow> string" where
  "universal_newlines [] = []"
| "universal_newlines [c] = [if c = CHR 0x0D then CHR 0x0A else c]"
| "universal_newlines (c # d # s) =
     (if c = CHR 0x0D \<and> d = CHR 0x0A then CHR 0x0A # universal_newlines s
      else if c = CHR 0x0D then CHR 0x0A # universal_newlines (d # s)
      else c # universal_newlines (d # s))"

text \<open>
  \<^verbatim>\<open>__iter__\<close>: the rows of the file as dictionaries. \<^verbatim>\<open>csv.DictReader\<close> is given the
  file and nothing else: the first line is taken as the field names, whether the ledger
  writes a header or not (a mismatch with \<open>fieldnames\<close> is logged and nothing else),
  blank lines after it are skipped, and a missing file gives no rows.
\<close>

definition ItemLog_iter :: "ItemLog \<Rightarrow> filesystem \<Rightarrow> (string \<rightharpoonup> string option) list" where
  "ItemLog_iter l fs =
     (case fs (filename l) of
        None \<Rightarrow> []
      | Some f \<Rightarrow>
          (case map (map universal_newlines) f of
             [] \<Rightarrow> []
           | h # rows \<Rightarrow> map (DictReader_row h) (filter (\<lambda>r. r \<noteq> []) rows)))"

text \<open>\<^verbatim>\<open>load_keys\<close>: \<^verbatim>\<open>row[self.keyfield]\<close> raises \<^verbatim>\<open>KeyError\<close> on a row without the key.\<close>

fun load_keys :: "string \<Rightarrow> (string \<rightharpoonup> string option) list \<Rightarrow> string option set
    \<Rightarrow> error + string option set" where
  "load_keys k [] ks = Inr ks"
| "load_keys k (r # rs) ks =
     (case r k of
        None \<Rightarrow> Inl (KeyError k)
      | Some v \<Rightarrow> load_keys k rs (insert v ks))"

text \<open>\<^verbatim>\<open>ItemLog(filename, fieldnames, keyfield, header)\<close>\<close>

definition ItemLog_init :: "filesystem \<Rightarrow> path \<Rightarrow> string list \<Rightarrow> string \<Rightarrow> bool \<Rightarrow> error + ItemLog" where
  "ItemLog_init fs fn fns kf hdr =
     (let l = \<lparr>filename = fn, fieldnames = fns, keyfield = kf, write_header = hdr,
                item_keys = {}\<rparr>
      in if ItemLog_exists l fs
         then (case load_keys kf (ItemLog_iter l fs) {} of
                 Inl e \<Rightarrow> Inl e
               | Inr ks \<Rightarrow> Inr (l\<lparr>item_keys := ks\<rparr>))
         else Inr l)"

text \<open>
  \<^verbatim>\<open>append(row)\<close>. The row is a dictionary whose values are strings, given as the
  list of its items. (Of a value that is no string \<^verbatim>\<open>csv\<close> writes the \<^verbatim>\<open>str\<close>, while
  the key kept is the object itself; such rows are outside the model.) The \<^verbatim>\<open>writer\<close> property creates the file if it does not exist;
  \<^verbatim>\<open>csv.DictWriter.writerow\<close> raises \<^verbatim>\<open>ValueError\<close> on a key that is no field name
  and writes one cell per field name, the empty string for a field the row lacks;
  then \<^verbatim>\<open>row[self.keyfield]\<close> is added to the keys, or raises \<^verbatim>\<open>KeyError\<close>, the line
  being written already. The result is the exception if any, and the ledger and the
  file system as the call leaves them.
\<close>

type_synonym rowdict = "(string \<times> string) list"

definition DictWriter_cells :: "string list \<Rightarrow> rowdict \<Rightarrow> csv_line" where
  "DictWriter_cells fns row = map (\<lambda>f. case map_of row f of None \<Rightarrow> [] | Some v \<Rightarrow> v) fns"

definition ItemLog_writer :: "ItemLog \<Rightarrow> filesystem \<Rightarrow> filesystem" where
  "ItemLog_writer l fs = (if ItemLog_exists l fs then fs else ItemLog_create l fs)"

definition write_line :: "path \<Rightarrow> csv_line \<Rightarrow> filesystem \<Rightarrow> filesystem" where
  "write_line fn cells fs = fs(fn \<mapsto> (case fs fn of None \<Rightarrow> [] | Some f \<Rightarrow> f) @ [cells])"

definition ItemLog_append :: "ItemLog \<Rightarrow> filesystem \<Rightarrow> rowdict
    \<Rightarrow> (error + unit) \<times> ItemLog \<times> filesystem" where
  "ItemLog_append l fs row =
     (let fs1 = ItemLog_writer l fs in
      if \<not> set (map fst row) \<subseteq> set (fieldnames l)
      then (Inl (ValueError ''dict contains fields not in fieldnames''), l, fs1)
      else
        let fs2 = write_line (filename l) (DictWriter_cells (fieldnames l) row) fs1
        in (case map_of row (keyfield l) of
              None \<Rightarrow> (Inl (KeyError (keyfield l)), l, fs2)
            | Some k \<Rightarrow> (Inr (), l\<lparr>item_keys := insert (Some k) (item_keys l)\<rparr>, fs2)))"

definition ItemLog_contains :: "ItemLog \<Rightarrow> string option \<Rightarrow> bool" where
  "ItemLog_contains l other = (other \<in> item_keys l)"

definition ItemLog_len :: "ItemLog \<Rightarrow> nat" where
  "ItemLog_len l = card (item_keys l)"

text \<open>A sequence of appends, stopping at the first that raises.\<close>

fun ItemLog_appends :: "ItemLog \<Rightarrow> filesystem \<Rightarrow> rowdict list
    \<Rightarrow> (error + unit) \<times> ItemLog \<times> filesystem" where
  "ItemLog_appends l fs [] = (Inr (), l, fs)"
| "ItemLog_appends l fs (r # rs) =
     (case ItemLog_append l fs r of
        (Inl e, l', fs') \<Rightarrow> (Inl e, l', fs')
      | (Inr u, l', fs') \<Rightarrow> ItemLog_appends l' fs' rs)"

text \<open>A new \<^verbatim>\<open>ItemLog\<close> over the backing file of a ledger, with its parameters.\<close>

definition ItemLog_reopen :: "ItemLog \<Rightarrow> filesystem \<Rightarrow> error + ItemLog" where
  "ItemLog_reopen l fs = ItemLog_init fs (filename l) (fieldnames l) (keyfield l) (write_header l)"

subsection \<open>ImportConfig, ImportJob and the binary sources\<close>

datatype ImportedItemStatus = CREATED | MODIFIED | UNCHANGED

fun status_value :: "ImportedItemStatus \<Rightarrow> string" where
  "status_value CREATED = ''created''"
| "status_value MODIFIED = ''modified''"
| "status_value UNCHANGED = ''unchanged''"

record ImportConfig =
  job_id :: string
  model :: "string option"
  access :: "string option"
  member_of :: "string option"
  container :: "string option"
  binaries_location :: "string option"
  extract_text_types :: "string option"

text \<open>
  The handles of \<^verbatim>\<open>plastron.files\<close>, by the arguments \<^verbatim>\<open>get_source\<close> constructs them
  with. \<^verbatim>\<open>ssh_options\<close> is the dictionary \<^verbatim>\<open>{'key_filename': key}\<close>, given by its one
  value; \<^verbatim>\<open>ZipFileSource\<close> takes it optionally.
\<close>

datatype BinarySource =
    ZipFileSource string string "string option option"
  | RemoteFileSource string "string option"
  | HTTPFileSource string
  | LocalFileSource string

text \<open>
  \<^verbatim>\<open>ImportJob\<close>. The directory \<^verbatim>\<open>dir\<close> is \<^verbatim>\<open>Path(jobs_dir) / safe_id\<close>; the model
  class cache is left out.
\<close>

record ImportJob =
  job_ident :: string
  job_dir :: path
  config :: ImportConfig
  completed_log :: ItemLog
  ssh_private_key :: "string option"
  validation_reports :: "string list"

definition get_source :: "ImportJob \<Rightarrow> string \<Rightarrow> string \<Rightarrow> BinarySource" where
  "get_source self base_location p =
     (if startswith base_location ''zip:'' then
        ZipFileSource (drop 4 base_location) p None
      else if startswith base_location ''sftp:'' then
        RemoteFileSource (os_path_join base_location p) (ssh_private_key self)
      else if startswith base_location ''http:'' \<or> startswith base_location ''https:'' then
        (let base_uri = (if endswith base_location ''/'' then base_location
                         else base_location @ ''/'')
         in HTTPFileSource (base_uri @ p))
      else if startswith base_location ''zip+sftp:'' then
        ZipFileSource (drop 4 base_location) p (Some (ssh_private_key self))
      else
        LocalFileSource (os_path_join base_location p))"

text \<open>
  The properties \<^verbatim>\<open>access\<close>, \<^verbatim>\<open>member_of\<close> and \<^verbatim>\<open>extract_text_types\<close>. The first
  is written \<^verbatim>\<open>URIRef[self.config.access]\<close>: it subscripts the class \<^verbatim>\<open>rdflib.URIRef\<close>
  (a subclass of \<^verbatim>\<open>str\<close>, with no \<^verbatim>\<open>__class_getitem__\<close>), which raises \<^verbatim>\<open>TypeError\<close>;
  the second calls the class, \<^verbatim>\<open>URIRef(self.config.member_of)\<close>. A reference is
  modelled by its string.
\<close>

definition job_access :: "ImportJob \<Rightarrow> error + string option" where
  "job_access self =
     (case access (config self) of
        Some a \<Rightarrow> Inl (TypeError ''URIRef is not subscriptable'')
      | None \<Rightarrow> Inr None)"

definition job_member_of :: "ImportJob \<Rightarrow> string option" where
  "job_member_of self =
     (case member_of (config self) of Some m \<Rightarrow> Some m | None \<Rightarrow> None)"

definition job_extract_text_types :: "ImportJob \<Rightarrow> string list" where
  "job_extract_text_types self =
     (case extract_text_types (config self) of
        Some t \<Rightarrow> split (CHR '','') t
      | None \<Rightarrow> [])"

subsection \<open>Validation results, domain objects, rows\<close>

text \<open>
  \<^verbatim>\<open>ValidationSuccess(prop, message)\<close> and \<^verbatim>\<open>ValidationFailure(prop, message)\<close>, as
  \<^verbatim>\<open>validate_files\<close> constructs them.
\<close>

datatype ValidationResult =
    ValidationSuccess "string option" string
  | ValidationFailure "string option" string

text \<open>
  Modelled from the spec: the class \<^verbatim>\<open>ValidationResultsDict\<close> of
  \<^verbatim>\<open>plastron.rdfmapping.validation\<close> is not among the sources. It is a dictionary from
  entry names to results, in insertion order; "overall validity is the conjunction of
  all entries", and \<^verbatim>\<open>failures()\<close> gives the failing entries with their names.
\<close>

type_synonym ValidationResultsDict = "(string \<times> ValidationResult) list"

fun is_failure :: "ValidationResult \<Rightarrow> bool" where
  "is_failure (ValidationFailure p m) = True"
| "is_failure (ValidationSuccess p m) = False"

definition failures :: "ValidationResultsDict \<Rightarrow> (string \<times> ValidationResult) list" where
  "failures results = filter (\<lambda>(name, result). is_failure result) results"

definition ok :: "ValidationResultsDict \<Rightarrow> bool" where
  "ok results = (failures results = [])"

text \<open>
  The domain object of a row, by what the import reads from it and writes to it.
  \<open>item_identifier\<close> and \<open>title\<close> are \<open>None\<close> where the object has no such attribute
  (\<^verbatim>\<open>getattr\<close> then takes its default); \<open>validate\<close> is what \<^verbatim>\<open>item.validate()\<close>
  returns, or the message of the \<^verbatim>\<open>ValidationError\<close> it raises.
\<close>

record Item =
  uri :: string
  has_changes :: bool
  item_identifier :: "string option"
  title :: "string option"
  rdf_type :: "string set"
  item_member_of :: "string option"
  validate :: "string + ValidationResultsDict"

text \<open>
  A row of the metadata spreadsheet. \<open>line_reference\<close> is the reference as \<^verbatim>\<open>str\<close>
  renders it; \<open>row_identifier\<close> is the item identifier the spreadsheet computes for the
  row; \<open>file_groups\<close> gives each group with the names of its files; \<open>get_object\<close>
  is \<^verbatim>\<open>row.get_object(repo, read_from_repo)\<close> as a function of the flag.
\<close>

record Row =
  line_reference :: string
  row_identifier :: string
  filenames :: "string list"
  item_filenames :: "string list"
  publish :: bool
  hidden :: bool
  has_files :: bool
  has_item_files :: bool
  file_groups :: "(string \<times> string list) list"
  get_object :: "bool \<Rightarrow> Item"

datatype sheet_row = InvalidRow string string | WellFormed Row

subsection \<open>The repository and the other collaborators\<close>

text \<open>
  The calls the import makes on the repository, in the order it makes them, are kept
  in a log. \<open>Update\<close> is \<^verbatim>\<open>resource.update()\<close>, the partial update of an existing
  resource; \<open>Read\<close> and \<open>AttachDescription\<close> precede it. The other calls belong to
  the creation of an item: the transaction, \<^verbatim>\<open>container.create_child\<close> (with the
  container and the description), \<^verbatim>\<open>create_page_sequence\<close> (with the file groups,
  each file with its source) and \<^verbatim>\<open>create_file\<close>.
\<close>

datatype repo_call =
    Read string
  | AttachDescription string
  | Update string
  | TransactionBegin
  | TransactionCommit
  | TransactionRollback
  | CreateChild "string option" Item
  | CreatePageSequence "(string \<times> (string \<times> BinarySource) list) list"
  | CreateFile BinarySource

text \<open>
  What the import does not decide itself: whether a binary exists, how a validation
  result and a job error are rendered by \<^verbatim>\<open>str\<close>, what \<^verbatim>\<open>annotate_from_files\<close> makes
  of an item, the exception a repository call raises (given the calls before it), the
  description as \<^verbatim>\<open>create_child\<close> leaves it, and the clock: the UTC time in ISO format
  and the local timestamp at each reading, the readings being counted.
\<close>

record collaborators =
  source_exists :: "BinarySource \<Rightarrow> bool"
  str_result :: "ValidationResult \<Rightarrow> string"
  str_JobError :: "string list \<Rightarrow> string"
  annotate_from_files :: "Item \<Rightarrow> string list \<Rightarrow> Item"
  repo_raises :: "repo_call list \<Rightarrow> repo_call \<Rightarrow> error option"
  created :: "Item \<Rightarrow> Item"
  utcnow_iso :: "nat \<Rightarrow> string"
  now_timestamp :: "nat \<Rightarrow> int"

text \<open>
  A sequence of steps against the repository, stopped by the first exception. A step
  is a call, raising what the repository raises on it, or an exception raised before
  any call is made.
\<close>

fun repo_steps :: "collaborators \<Rightarrow> (error + repo_call) list \<Rightarrow> repo_call list
    \<Rightarrow> (error + unit) \<times> repo_call list" where
  "repo_steps E [] calls = (Inr (), calls)"
| "repo_steps E (Inl e # steps) calls = (Inl e, calls)"
| "repo_steps E (Inr c # steps) calls =
     (case repo_raises E calls c of
        Some e \<Rightarrow> (Inl e, calls @ [c])
      | None \<Rightarrow> repo_steps E steps (calls @ [c]))"

subsection \<open>ImportRow\<close>

text \<open>
  \<^verbatim>\<open>self.job.get_source(self.job.config.binaries_location, name)\<close>: without a binaries
  location, \<^verbatim>\<open>base_location.startswith\<close> is an attribute of \<^verbatim>\<open>None\<close>.
\<close>

definition job_source :: "ImportJob \<Rightarrow> string \<Rightarrow> error + BinarySource" where
  "job_source job name =
     (case binaries_location (config job) of
        None \<Rightarrow> Inl (AttributeError ''NoneType object has no attribute startswith'')
      | Some b \<Rightarrow> Inr (get_source job b name))"

text \<open>The list comprehension of \<^verbatim>\<open>validate_files\<close>.\<close>

fun missing_files :: "collaborators \<Rightarrow> ImportJob \<Rightarrow> string list \<Rightarrow> error + string list" where
  "missing_files E job [] = Inr []"
| "missing_files E job (name # names) =
     (case job_source job name of
        Inl e \<Rightarrow> Inl e
      | Inr source \<Rightarrow>
          (case missing_files E job names of
             Inl e \<Rightarrow> Inl e
           | Inr ms \<Rightarrow> Inr (if \<not> source_exists E source then name # ms else ms)))"

definition validate_files :: "collaborators \<Rightarrow> ImportJob \<Rightarrow> string list \<Rightarrow> error + ValidationResult" where
  "validate_files E job names =
     (case missing_files E job names of
        Inl e \<Rightarrow> Inl e
      | Inr ms \<Rightarrow>
          Inr (if length ms = 0 then ValidationSuccess None ''All files present''
               else ValidationFailure None
                 (''Missing '' @ str_nat (length ms) @ '' files: '' @ join '';'' ms)))"

definition validate_item :: "collaborators \<Rightarrow> ImportJob \<Rightarrow> Row \<Rightarrow> Item \<Rightarrow> error + ValidationResultsDict" where
  "validate_item E job row item =
     (case validate item of
        Inl e \<Rightarrow> Inl (RuntimeError (''Unable to run validation: '' @ e))
      | Inr results \<Rightarrow>
          (case validate_files E job (filenames row) of
             Inl e \<Rightarrow> Inl e
           | Inr files \<Rightarrow>
               (case validate_files E job (item_filenames row) of
                  Inl e \<Rightarrow> Inl e
                | Inr item_files \<Rightarrow>
                    Inr (AList.update ''ITEM_FILES'' item_files
                          (AList.update ''FILES'' files results)))))"

text \<open>The references \<^verbatim>\<open>umdaccess.Published\<close> and \<^verbatim>\<open>umdaccess.Hidden\<close>.\<close>

definition umdaccess_Published :: string where
  "umdaccess_Published = ''http://vocab.lib.umd.edu/access#Published''"

definition umdaccess_Hidden :: string where
  "umdaccess_Hidden = ''http://vocab.lib.umd.edu/access#Hidden''"

text \<open>
  \<^verbatim>\<open>create_resource\<close>, first part: the item is tagged. The access class is read
  through the property \<^verbatim>\<open>self.job.access\<close>, whose exception ends the method; the test
  \<^verbatim>\<open>self.job.extract_text_types is not None\<close> holds always, the property giving a list.
\<close>

definition tag_item :: "collaborators \<Rightarrow> ImportJob \<Rightarrow> Row \<Rightarrow> Item \<Rightarrow> error + Item" where
  "tag_item E job row item =
     (case job_access job of
        Inl e \<Rightarrow> Inl e
      | Inr a \<Rightarrow>
          (let item1 = (case a of
                          Some c \<Rightarrow> item\<lparr>rdf_type := insert c (rdf_type item)\<rparr>
                        | None \<Rightarrow> item);
               item2 = (case job_member_of job of
                          Some m \<Rightarrow> item1\<lparr>item_member_of := Some m\<rparr>
                        | None \<Rightarrow> item1);
               item3 = (if publish row
                        then item2\<lparr>rdf_type := insert umdaccess_Published (rdf_type item2)\<rparr>
                        else item2);
               item4 = (if hidden row
                        then item3\<lparr>rdf_type := insert umdaccess_Hidden (rdf_type item3)\<rparr>
                        else item3)
           in Inr (annotate_from_files E item4 (job_extract_text_types job))))"

text \<open>
  Second part: the steps inside the transaction. Each file of the file groups gets its
  source before the page sequence is created; each item-level file gets its source and
  is created in turn.
\<close>

fun group_sources :: "ImportJob \<Rightarrow> string list \<Rightarrow> error + (string \<times> BinarySource) list" where
  "group_sources job [] = Inr []"
| "group_sources job (name # names) =
     (case job_source job name of
        Inl e \<Rightarrow> Inl e
      | Inr source \<Rightarrow>
          (case group_sources job names of
             Inl e \<Rightarrow> Inl e
           | Inr fs \<Rightarrow> Inr ((name, source) # fs)))"

fun groups_sources :: "ImportJob \<Rightarrow> (string \<times> string list) list
    \<Rightarrow> error + (string \<times> (string \<times> BinarySource) list) list" where
  "groups_sources job [] = Inr []"
| "groups_sources job ((g, names) # groups) =
     (case group_sources job names of
        Inl e \<Rightarrow> Inl e
      | Inr fs \<Rightarrow>
          (case groups_sources job groups of
             Inl e \<Rightarrow> Inl e
           | Inr gs \<Rightarrow> Inr ((g, fs) # gs)))"

definition creation_steps :: "ImportJob \<Rightarrow> Row \<Rightarrow> Item \<Rightarrow> (error + repo_call) list" where
  "creation_steps job row item =
     [Inr (CreateChild (container (config job)) item)]
     @ (if has_files row
        then [case groups_sources job (file_groups row) of
                Inl e \<Rightarrow> Inl e
              | Inr gs \<Rightarrow> Inr (CreatePageSequence gs)]
        else [])
     @ (if has_item_files row
        then map (\<lambda>name. case job_source job name of
                            Inl e \<Rightarrow> Inl e
                          | Inr source \<Rightarrow> Inr (CreateFile source))
               (item_filenames row)
        else [])"

text \<open>
  Modelled from the spec: the context manager \<^verbatim>\<open>Repository.transaction\<close> of
  \<^verbatim>\<open>plastron.repo\<close> is not among the sources. The transaction of a creation commits
  when its body ends, and "the transaction rolls back" when a step of the body fails;
  the exception of the body is the one raised. Its own calls go through the repository
  like the others.
\<close>

definition transaction :: "collaborators \<Rightarrow> (error + repo_call) list \<Rightarrow> repo_call list
    \<Rightarrow> (error + unit) \<times> repo_call list" where
  "transaction E steps calls =
     (case repo_steps E [Inr TransactionBegin] calls of
        (Inl e, calls1) \<Rightarrow> (Inl e, calls1)
      | (Inr u, calls1) \<Rightarrow>
          (case repo_steps E steps calls1 of
             (Inl e, calls2) \<Rightarrow> (Inl e, snd (repo_steps E [Inr TransactionRollback] calls2))
           | (Inr u, calls2) \<Rightarrow> repo_steps E [Inr TransactionCommit] calls2))"

text \<open>
  \<^verbatim>\<open>create_resource\<close>. A \<^verbatim>\<open>ClientError\<close> (its message and the text of its response)
  becomes a \<^verbatim>\<open>JobError\<close>; any other exception passes through.
\<close>

fun creation_error :: "ImportJob \<Rightarrow> error \<Rightarrow> error" where
  "creation_error job (ClientError m t) =
     JobError [job_ident job, ''Creating item failed: '' @ m, t]"
| "creation_error job e = e"

definition create_resource :: "collaborators \<Rightarrow> ImportJob \<Rightarrow> Row \<Rightarrow> Item \<Rightarrow> repo_call list
    \<Rightarrow> (error + unit) \<times> Item \<times> repo_call list" where
  "create_resource E job row item calls =
     (case tag_item E job row item of
        Inl e \<Rightarrow> (Inl e, item, calls)
      | Inr item1 \<Rightarrow>
          (case transaction E (creation_steps job row item1) calls of
             (Inl e, calls1) \<Rightarrow> (Inl (creation_error job e), item1, calls1)
           | (Inr u, calls1) \<Rightarrow> (Inr (), created E item1, calls1)))"

text \<open>
  \<^verbatim>\<open>update_repo\<close>. A \<^verbatim>\<open>RepositoryError\<close> of the update becomes a \<^verbatim>\<open>JobError\<close>; any
  other exception passes through. The result is the status or the exception, with the
  item and the log of repository calls as the method leaves them.
\<close>

fun update_error :: "error \<Rightarrow> error" where
  "update_error (RepositoryError m) = JobError [''Updating item failed: '' @ m]"
| "update_error e = e"

definition update_repo :: "collaborators \<Rightarrow> ImportJob \<Rightarrow> Row \<Rightarrow> Item \<Rightarrow> repo_call list
    \<Rightarrow> (error + ImportedItemStatus) \<times> Item \<times> repo_call list" where
  "update_repo E job row item calls =
     (if startswith (uri item) ''urn:uuid:'' then
        (case create_resource E job row item calls of
           (Inl e, item1, calls1) \<Rightarrow> (Inl e, item1, calls1)
         | (Inr u, item1, calls1) \<Rightarrow> (Inr CREATED, item1, calls1))
      else if has_changes item then
        (case repo_steps E [Inr (Read (uri item)), Inr (AttachDescription (uri item)),
                            Inr (Update (uri item))] calls of
           (Inl e, calls1) \<Rightarrow> (Inl (update_error e), item, calls1)
         | (Inr u, calls1) \<Rightarrow> (Inr MODIFIED, item, calls1))
      else (Inr UNCHANGED, item, calls))"

subsection \<open>ImportRun\<close>

text \<open>
  The state a run works on: the attributes of the \<^verbatim>\<open>ImportRun\<close> (its job, its
  directory and timestamp, its two ledgers once they are opened), the files of the
  ledgers, the log of the calls made on the repository, and the number of times the
  clock has been read.
\<close>

record state =
  job :: ImportJob
  dir :: "path option"
  timestamp :: "string option"
  invalid_items_attr :: "ItemLog option"
  failed_items_attr :: "ItemLog option"
  files :: filesystem
  repo_log :: "repo_call list"
  clock_reads :: nat

definition DROPPED_INVALID_FIELDNAMES :: "string list" where
  "DROPPED_INVALID_FIELDNAMES = [''id'', ''timestamp'', ''title'', ''uri'', ''reason'']"

definition DROPPED_FAILED_FIELDNAMES :: "string list" where
  "DROPPED_FAILED_FIELDNAMES = [''id'', ''timestamp'', ''title'', ''uri'', ''reason'']"

text \<open>\<^verbatim>\<open>datetimestamp(digits_only)\<close>: the UTC time, reduced to its digits on demand.\<close>

definition datetimestamp :: "collaborators \<Rightarrow> bool \<Rightarrow> state \<Rightarrow> string \<times> state" where
  "datetimestamp E digits_only st =
     (let now = utcnow_iso E (clock_reads st)
      in (if digits_only then filter (\<lambda>c. c \<in> set ''0123456789'') now else now,
          st\<lparr>clock_reads := Suc (clock_reads st)\<rparr>))"

text \<open>
  The properties \<^verbatim>\<open>invalid_items\<close> and \<^verbatim>\<open>failed_items\<close> open the ledger at first use.
  (\<^verbatim>\<open>self.dir / name\<close> on a run without directory is a \<^verbatim>\<open>TypeError\<close>.)
\<close>

definition invalid_items :: "state \<Rightarrow> (error + ItemLog) \<times> state" where
  "invalid_items st =
     (case invalid_items_attr st of
        Some l \<Rightarrow> (Inr l, st)
      | None \<Rightarrow>
          (case dir st of
             None \<Rightarrow> (Inl (TypeError ''unsupported operand type(s) for /''), st)
           | Some d \<Rightarrow>
               (case ItemLog_init (files st) (d @ [''dropped-invalid.log.csv''])
                       DROPPED_INVALID_FIELDNAMES ''id'' True of
                  Inl e \<Rightarrow> (Inl e, st)
                | Inr l \<Rightarrow> (Inr l, st\<lparr>invalid_items_attr := Some l\<rparr>))))"

definition failed_items :: "state \<Rightarrow> (error + ItemLog) \<times> state" where
  "failed_items st =
     (case failed_items_attr st of
        Some l \<Rightarrow> (Inr l, st)
      | None \<Rightarrow>
          (case dir st of
             None \<Rightarrow> (Inl (TypeError ''unsupported operand type(s) for /''), st)
           | Some d \<Rightarrow>
               (case ItemLog_init (files st) (d @ [''dropped-failed.log.csv''])
                       DROPPED_FAILED_FIELDNAMES ''id'' True of
                  Inl e \<Rightarrow> (Inl e, st)
                | Inr l \<Rightarrow> (Inr l, st\<lparr>failed_items_attr := Some l\<rparr>))))"

text \<open>
  The row \<^verbatim>\<open>drop_failed\<close> and \<^verbatim>\<open>drop_invalid\<close> write: \<^verbatim>\<open>getattr\<close> with its defaults,
  on an item that may be \<^verbatim>\<open>None\<close>.
\<close>

definition dropped_row :: "Item option \<Rightarrow> string \<Rightarrow> string \<Rightarrow> string \<Rightarrow> rowdict" where
  "dropped_row item lr ts reason =
     [(''id'', case item of
                 None \<Rightarrow> lr
               | Some i \<Rightarrow> (case item_identifier i of None \<Rightarrow> lr | Some x \<Rightarrow> x)),
      (''timestamp'', ts),
      (''title'', case item of
                    None \<Rightarrow> []
                  | Some i \<Rightarrow> (case title i of None \<Rightarrow> [] | Some t \<Rightarrow> t)),
      (''uri'', case item of None \<Rightarrow> [] | Some i \<Rightarrow> uri i),
      (''reason'', reason)]"

definition drop_failed :: "collaborators \<Rightarrow> Item option \<Rightarrow> string \<Rightarrow> string \<Rightarrow> state
    \<Rightarrow> (error + unit) \<times> state" where
  "drop_failed E item lr reason st =
     (case failed_items st of
        (Inl e, st1) \<Rightarrow> (Inl e, st1)
      | (Inr l, st1) \<Rightarrow>
          (case datetimestamp E False st1 of
             (ts, st2) \<Rightarrow>
               (case ItemLog_append l (files st2) (dropped_row item lr ts reason) of
                  (r, l1, fs1) \<Rightarrow> (r, st2\<lparr>failed_items_attr := Some l1, files := fs1\<rparr>))))"

definition drop_invalid :: "collaborators \<Rightarrow> Item option \<Rightarrow> string \<Rightarrow> string \<Rightarrow> state
    \<Rightarrow> (error + unit) \<times> state" where
  "drop_invalid E item lr reason st =
     (case invalid_items st of
        (Inl e, st1) \<Rightarrow> (Inl e, st1)
      | (Inr l, st1) \<Rightarrow>
          (case datetimestamp E False st1 of
             (ts, st2) \<Rightarrow>
               (case ItemLog_append l (files st2) (dropped_row item lr ts reason) of
                  (r, l1, fs1) \<Rightarrow> (r, st2\<lparr>invalid_items_attr := Some l1, files := fs1\<rparr>))))"

text \<open>\<^verbatim>\<open>ImportRun.complete\<close>, that is \<^verbatim>\<open>ImportJob.complete\<close>.\<close>

definition completed_row :: "Item \<Rightarrow> string \<Rightarrow> string \<Rightarrow> ImportedItemStatus \<Rightarrow> rowdict" where
  "completed_row item lr ts status =
     [(''id'', case item_identifier item of None \<Rightarrow> lr | Some x \<Rightarrow> x),
      (''timestamp'', ts),
      (''title'', case title item of None \<Rightarrow> [] | Some t \<Rightarrow> t),
      (''uri'', uri item),
      (''status'', status_value status)]"

definition complete :: "collaborators \<Rightarrow> Item \<Rightarrow> string \<Rightarrow> ImportedItemStatus \<Rightarrow> state
    \<Rightarrow> (error + unit) \<times> state" where
  "complete E item lr status st =
     (case datetimestamp E False st of
        (ts, st1) \<Rightarrow>
          (case ItemLog_append (completed_log (job st1)) (files st1)
                  (completed_row item lr ts status) of
             (r, l1, fs1) \<Rightarrow> (r, st1\<lparr>job := (job st1)\<lparr>completed_log := l1\<rparr>, files := fs1\<rparr>)))"

text \<open>
  \<^verbatim>\<open>collections.Counter\<close>: a dictionary of integers in which a missing key reads as 0.
\<close>

type_synonym Counter = "(string \<times> int) list"

definition Counter_get :: "Counter \<Rightarrow> string \<Rightarrow> int" where
  "Counter_get c k = (case map_of c k of None \<Rightarrow> 0 | Some v \<Rightarrow> v)"

definition Counter_add :: "Counter \<Rightarrow> string \<Rightarrow> int \<Rightarrow> Counter" where
  "Counter_add c k n = AList.update k (Counter_get c k + n) c"

text \<open>
  What the generator yields after a row, and what it returns at the end. The yielded
  dictionary refers to the one \<^verbatim>\<open>Counter\<close> of the run; the model records the counts
  as they are when the snapshot is yielded.
\<close>

record snapshot =
  time_started :: int
  time_now :: int
  time_elapsed :: int
  snapshot_count :: Counter

record result =
  result_type :: string
  validation :: "string list"
  result_count :: Counter

text \<open>
  The metadata of the job, as \<^verbatim>\<open>MetadataSpreadsheet\<close> gives it: the number of rows,
  whether the sheet names binaries, and the rows it selects for a limit and a
  percentage. \<^verbatim>\<open>get_metadata\<close> gives it or raises.
\<close>

record Metadata =
  total :: nat
  has_binaries :: bool
  selected :: "nat option \<Rightarrow> nat option \<Rightarrow> sheet_row list"

datatype metadata_result =
    Loaded Metadata
  | ModelClassNotFoundError string
  | MetadataJobError "string list"

text \<open>
  Modelled from the spec: the generator \<^verbatim>\<open>MetadataSpreadsheet.rows(limit, percentage,
  completed)\<close> of \<^verbatim>\<open>plastron.jobs.imports.spreadsheet\<close> is not among the sources. Of its
  three filters the spec fixes the third: it "skips any row whose computed item
  identifier is already present in the job's completed ledger". The generator is
  consumed row by row, so the ledger is the one of the moment the row is reached; an
  invalid row marker has no identifier and is passed on.
\<close>

definition rows_skips :: "ItemLog \<Rightarrow> sheet_row \<Rightarrow> bool" where
  "rows_skips completed x =
     (case x of
        InvalidRow lr reason \<Rightarrow> False
      | WellFormed row \<Rightarrow> ItemLog_contains completed (Some (row_identifier row)))"

text \<open>The \<^verbatim>\<open>yield\<close> at the end of the loop body.\<close>

definition yield_status :: "collaborators \<Rightarrow> int \<Rightarrow> Counter \<Rightarrow> state \<Rightarrow> snapshot \<times> state" where
  "yield_status E start_time c st =
     (let now = now_timestamp E (clock_reads st)
      in (\<lparr>time_started = start_time, time_now = now, time_elapsed = now - start_time,
            snapshot_count = c\<rparr>,
          st\<lparr>clock_reads := Suc (clock_reads st)\<rparr>))"

text \<open>
  The \<^verbatim>\<open>try\<close> block of the loop body: the update of the repository, the entry in the
  completed ledger, the counter of the status. (The last branch of the source, an
  unknown status, has no value of the status type.)
\<close>

fun count_status :: "Counter \<Rightarrow> ImportedItemStatus \<Rightarrow> Counter" where
  "count_status c CREATED = Counter_add c ''created_items'' 1"
| "count_status c MODIFIED = Counter_add c ''updated_items'' 1"
| "count_status c UNCHANGED =
     Counter_add (Counter_add c ''unchanged_items'' 1) ''skipped_items'' 1"

definition import_item :: "collaborators \<Rightarrow> Row \<Rightarrow> Item \<Rightarrow> Counter \<Rightarrow> state
    \<Rightarrow> (error + unit) \<times> Item \<times> Counter \<times> state" where
  "import_item E row item c st =
     (case update_repo E (job st) row item (repo_log st) of
        (Inl e, item1, calls1) \<Rightarrow> (Inl e, item1, c, st\<lparr>repo_log := calls1\<rparr>)
      | (Inr status, item1, calls1) \<Rightarrow>
          (case complete E item1 (line_reference row) status (st\<lparr>repo_log := calls1\<rparr>) of
             (Inl e, st1) \<Rightarrow> (Inl e, item1, c, st1)
           | (Inr u, st1) \<Rightarrow> (Inr (), item1, count_status c status, st1)))"

text \<open>
  The rest of the body: \<^verbatim>\<open>except JobError\<close> counts and logs the failure; any other
  exception leaves the run; then the status is yielded.
\<close>

fun after_import :: "collaborators \<Rightarrow> int \<Rightarrow> Row \<Rightarrow> (error + unit) \<times> Item \<times> Counter \<times> state
    \<Rightarrow> snapshot list \<times> error option \<times> Counter \<times> state" where
  "after_import E start_time row (Inl (JobError args), item, c, st) =
     (let c1 = Counter_add c ''items_with_errors'' 1
      in case drop_failed E (Some item) (line_reference row) (str_JobError E args) st of
           (Inl e, st1) \<Rightarrow> ([], Some e, c1, st1)
         | (Inr u, st1) \<Rightarrow>
             (case yield_status E start_time c1 st1 of
                (s, st2) \<Rightarrow> ([s], None, c1, st2)))"
| "after_import E start_time row (Inl e, item, c, st) = ([], Some e, c, st)"
| "after_import E start_time row (Inr u, item, c, st) =
     (case yield_status E start_time c st of (s, st1) \<Rightarrow> ([s], None, c, st1))"

text \<open>
  The body of the loop for one row: the snapshots it yields (none or one), the
  exception that leaves the run if any, the counter and the state.
\<close>

definition process_row :: "collaborators \<Rightarrow> bool \<Rightarrow> int \<Rightarrow> sheet_row \<Rightarrow> Counter \<Rightarrow> state
    \<Rightarrow> snapshot list \<times> error option \<times> Counter \<times> state" where
  "process_row E validate_only start_time x c st =
     (case x of
        InvalidRow lr reason \<Rightarrow>
          (case drop_invalid E None lr reason st of
             (Inl e, st1) \<Rightarrow> ([], Some e, c, st1)
           | (Inr u, st1) \<Rightarrow> ([], None, c, st1))
      | WellFormed row \<Rightarrow>
          (let item = get_object row (\<not> validate_only);
               c1 = Counter_add c ''files'' (int (length (filenames row)))
           in case validate_item E (job st) row item of
                Inl e \<Rightarrow> ([], Some e, c1, st)
              | Inr results \<Rightarrow>
                  if ok results then
                    (let c2 = Counter_add c1 ''valid_items'' 1
                     in if validate_only then ([], None, c2, st)
                        else after_import E start_time row (import_item E row item c2 st))
                  else
                    (let c2 = Counter_add c1 ''invalid_items'' 1;
                         reasons = map (\<lambda>(name, r). name @ '' '' @ str_result E r)
                                     (failures results)
                     in case drop_invalid E (Some item) (line_reference row)
                               (''Validation failures: '' @ join ''; '' reasons) st of
                          (Inl e, st1) \<Rightarrow> ([], Some e, c2, st1)
                        | (Inr u, st1) \<Rightarrow> ([], None, c2, st1))))"

text \<open>The loop over the rows of the generator.\<close>

fun run_rows :: "collaborators \<Rightarrow> bool \<Rightarrow> int \<Rightarrow> sheet_row list \<Rightarrow> Counter \<Rightarrow> state
    \<Rightarrow> snapshot list \<times> error option \<times> Counter \<times> state" where
  "run_rows E validate_only start_time [] c st = ([], None, c, st)"
| "run_rows E validate_only start_time (x # xs) c st =
     (if rows_skips (completed_log (job st)) x
      then run_rows E validate_only start_time xs c st
      else
        (case process_row E validate_only start_time x c st of
           (snaps, Some e, c1, st1) \<Rightarrow> (snaps, Some e, c1, st1)
         | (snaps, None, c1, st1) \<Rightarrow>
             (case run_rows E validate_only start_time xs c1 st1 of
                (snaps1, r, c2, st2) \<Rightarrow> (snaps @ snaps1, r, c2, st2))))"

text \<open>The classification at the end of \<^verbatim>\<open>run\<close>.\<close>

definition classify :: "bool \<Rightarrow> Counter \<Rightarrow> state \<Rightarrow> string" where
  "classify validate_only c st =
     (if validate_only then
        (if Counter_get c ''invalid_items'' = 0 then ''validate_success''
         else ''validate_failed'')
      else
        (if int (ItemLog_len (completed_log (job st))) = Counter_get c ''total_items''
         then ''import_complete''
         else ''import_incomplete''))"

definition initial_count :: "Metadata \<Rightarrow> state \<Rightarrow> Counter" where
  "initial_count metadata st =
     [(''total_items'', int (total metadata)),
      (''rows'', 0),
      (''errors'', 0),
      (''initially_completed_items'', int (ItemLog_len (completed_log (job st)))),
      (''files'', 0),
      (''valid_items'', 0),
      (''invalid_items'', 0),
      (''created_items'', 0),
      (''updated_items'', 0),
      (''unchanged_items'', 0),
      (''skipped_items'', 0)]"

text \<open>
  \<^verbatim>\<open>run\<close>: the snapshots yielded, then the value returned or the exception raised,
  and the state left behind. \<open>spreadsheet\<close> is what \<^verbatim>\<open>self.job.get_metadata()\<close> gives
  once the import file, if one is passed, is stored as the job's metadata file.
\<close>

definition metadata_filename :: "ImportJob \<Rightarrow> path" where
  "metadata_filename self = job_dir self @ [''source.csv'']"

text \<open>
  The start of \<^verbatim>\<open>run\<close>: the timestamp and the directory of the run, the start time,
  and the import file stored as the job's metadata file if one is passed.
\<close>

definition start_run :: "collaborators \<Rightarrow> csv_file option \<Rightarrow> state \<Rightarrow> int \<times> state" where
  "start_run E import_file st =
     (case datetimestamp E True st of
        (ts, st1) \<Rightarrow>
          (let st2 = st1\<lparr>timestamp := Some ts, dir := Some (job_dir (job st1) @ [ts])\<rparr>;
               start_time = now_timestamp E (clock_reads st2);
               st3 = st2\<lparr>clock_reads := Suc (clock_reads st2)\<rparr>;
               st4 = (case import_file of
                        None \<Rightarrow> st3
                      | Some f \<Rightarrow> st3\<lparr>files := (files st3)(metadata_filename (job st3) \<mapsto> f)\<rparr>)
           in (start_time, st4)))"

definition run :: "collaborators \<Rightarrow> metadata_result \<Rightarrow> nat option \<Rightarrow> nat option \<Rightarrow> bool
    \<Rightarrow> csv_file option \<Rightarrow> state \<Rightarrow> snapshot list \<times> (error + result) \<times> state" where
  "run E spreadsheet limit percentage validate_only import_file st =
     (if dir st \<noteq> None
      then ([], Inl (RuntimeError ''Run completed, cannot start again''), st)
      else
        (case start_run E import_file st of
           (start_time, st4) \<Rightarrow>
             (case spreadsheet of
                ModelClassNotFoundError name \<Rightarrow>
                  ([], Inl (RuntimeError (''Model class '' @ name @ '' not found'')), st4)
              | MetadataJobError args \<Rightarrow>
                  ([], Inl (RuntimeError (str_JobError E args)), st4)
              | Loaded metadata \<Rightarrow>
                  if has_binaries metadata \<and> binaries_location (config (job st4)) = None
                  then ([], Inl (RuntimeError
                          ''Must specify --binaries-location if the metadata has a FILES column''),
                        st4)
                  else
                    (case run_rows E validate_only start_time
                            (selected metadata limit percentage)
                            (initial_count metadata st4) st4 of
                       (snaps, Some e, c, st5) \<Rightarrow> (snaps, Inl e, st5)
                     | (snaps, None, c, st5) \<Rightarrow>
                         (snaps,
                          Inr \<lparr>result_type = classify validate_only c st5,
                               validation = validation_reports (job st5),
                               result_count = c\<rparr>,
                          st5)))))"

subsection \<open>Notions for the verification\<close>

text \<open>
  A string without carriage return is read from a file as it was written.
\<close>

definition plain :: "string \<Rightarrow> bool" where
  "plain s = (CHR 0x0D \<notin> set s)"

text \<open>
  A ledger with header agrees with its file: opening the file again gives this ledger,
  the file is absent or begins with the ledger's field names, and these are plain.
\<close>

definition in_sync :: "ItemLog \<Rightarrow> filesystem \<Rightarrow> bool" where
  "in_sync l files0 = (write_header l \<and> ItemLog_reopen l files0 = Inr l
      \<and> (files0 (filename l) = None \<or> (\<exists>body. files0 (filename l) = Some (fieldnames l # body)))
      \<and> list_all plain (fieldnames l))"

text \<open>The partial updates among the calls made on the repository.\<close>

fun is_patch :: "repo_call \<Rightarrow> bool" where
  "is_patch (Update u) = True"
| "is_patch c = False"

definition patch_calls :: "repo_call list \<Rightarrow> nat" where
  "patch_calls cs = length (filter is_patch cs)"

text \<open>A repository that raises on no call.\<close>

definition raises_nothing :: "collaborators \<Rightarrow> bool" where
  "raises_nothing E = (\<forall>log c. repo_raises E log c = None)"

text \<open>
  The ledgers a run has opened are its own: they have the field names and the key
  field the properties \<^verbatim>\<open>invalid_items\<close> and \<^verbatim>\<open>failed_items\<close> give them.
\<close>

definition ledgers_ok :: "state \<Rightarrow> bool" where
  "ledgers_ok st =
     ((case invalid_items_attr st of
         None \<Rightarrow> True
       | Some l \<Rightarrow> fieldnames l = DROPPED_INVALID_FIELDNAMES \<and> keyfield l = ''id'')
      \<and> (case failed_items_attr st of
            None \<Rightarrow> True
          | Some l \<Rightarrow> fieldnames l = DROPPED_FAILED_FIELDNAMES \<and> keyfield l = ''id''))"

text \<open>The key and the line of cells that \<open>dropped_row\<close> puts into a ledger.\<close>

definition dropped_id :: "Item option \<Rightarrow> string \<Rightarrow> string" where
  "dropped_id item lr =
     (case item of
        None \<Rightarrow> lr
      | Some i \<Rightarrow> (case item_identifier i of None \<Rightarrow> lr | Some x \<Rightarrow> x))"

definition dropped_cells :: "Item option \<Rightarrow> string \<Rightarrow> string \<Rightarrow> string \<Rightarrow> csv_line" where
  "dropped_cells item lr ts reason =
     [dropped_id item lr, ts,
      (case item of None \<Rightarrow> [] | Some i \<Rightarrow> (case title i of None \<Rightarrow> [] | Some t \<Rightarrow> t)),
      (case item of None \<Rightarrow> [] | Some i \<Rightarrow> uri i),
      reason]"

text \<open>
  The names among \<open>names\<close> whose source under the base location \<open>b\<close> does not exist,
  the message of \<^verbatim>\<open>validate_files\<close> for them, and the reason \<^verbatim>\<open>run\<close> logs for the
  failures of a validation.
\<close>

definition missing :: "collaborators \<Rightarrow> ImportJob \<Rightarrow> string \<Rightarrow> string list \<Rightarrow> string list" where
  "missing E j b names = filter (\<lambda>n. \<not> source_exists E (get_source j b n)) names"

definition missing_message :: "string list \<Rightarrow> string" where
  "missing_message ms = ''Missing '' @ str_nat (length ms) @ '' files: '' @ join '';'' ms"

definition failure_reasons :: "collaborators \<Rightarrow> ValidationResultsDict \<Rightarrow> string" where
  "failure_reasons E results =
     ''Validation failures: ''
       @ join ''; '' (map (\<lambda>(name, r). name @ '' '' @ str_result E r) (failures results))"

text \<open>The counters that the loop of \<^verbatim>\<open>run\<close> adds to.\<close>

definition touched :: "string set" where
  "touched = {''files'', ''valid_items'', ''invalid_items'', ''created_items'', ''updated_items'',
     ''unchanged_items'', ''skipped_items'', ''items_with_errors''}"

text \<open>
  The row stream of a run: the rows the generator hands to the loop, one after the
  other, until the rows end or an exception leaves the run. It follows \<open>run_rows\<close>
  step by step.
\<close>

fun row_stream :: "collaborators \<Rightarrow> bool \<Rightarrow> int \<Rightarrow> sheet_row list \<Rightarrow> Counter \<Rightarrow> state
    \<Rightarrow> sheet_row list" where
  "row_stream E validate_only start_time [] c st = []"
| "row_stream E validate_only start_time (x # xs) c st =
     (if rows_skips (completed_log (job st)) x
      then row_stream E validate_only start_time xs c st
      else x # (case process_row E validate_only start_time x c st of
                  (snaps, Some e, c1, st1) \<Rightarrow> []
                | (snaps, None, c1, st1) \<Rightarrow> row_stream E validate_only start_time xs c1 st1))"

subsection \<open>Concrete inputs\<close>

text \<open>A job used to evaluate the model at concrete inputs.\<close>

definition example_log :: ItemLog where
  "example_log = \<lparr>filename = [''jobs'', ''job1'', ''completed.log.csv''],
     fieldnames = [''id'', ''timestamp'', ''title'', ''uri'', ''status''],
     keyfield = ''id'', write_header = True, item_keys = {}\<rparr>"

definition example_config :: ImportConfig where
  "example_config = \<lparr>job_id = ''job1'', model = Some ''Item'', access = None,
     member_of = None, container = Some ''/objects'', binaries_location = Some ''/data'',
     extract_text_types = None\<rparr>"

definition example_job :: ImportJob where
  "example_job = \<lparr>job_ident = ''job1'', job_dir = [''jobs'', ''job1''],
     config = example_config, completed_log = example_log,
     ssh_private_key = Some ''/home/u/.ssh/id_rsa'', validation_reports = []\<rparr>"

text \<open>
  Collaborators for the evaluations: every binary exists but one, a validation result is
  rendered by its message and a job error by its arguments, nothing is annotated, the
  repository raises on no call. In \<open>read_fails\<close> the repository raises on every read.
\<close>

fun result_message :: "ValidationResult \<Rightarrow> string" where
  "result_message (ValidationSuccess p m) = m"
| "result_message (ValidationFailure p m) = m"

definition quiet :: collaborators where
  "quiet = \<lparr>source_exists = (\<lambda>s. s \<noteq> LocalFileSource ''/data/missing.tif''),
     str_result = result_message,
     str_JobError = join '': '', annotate_from_files = (\<lambda>i ts. i),
     repo_raises = (\<lambda>log c. None), created = (\<lambda>i. i),
     utcnow_iso = (\<lambda>n. ''2024-01-01T00:00:00''), now_timestamp = int\<rparr>"

fun fails_on_read :: "repo_call list \<Rightarrow> repo_call \<Rightarrow> error option" where
  "fails_on_read log (Read u) = Some (RepositoryError ''404 Not Found'')"
| "fails_on_read log c = None"

definition read_fails :: collaborators where
  "read_fails = quiet\<lparr>repo_raises := fails_on_read\<rparr>"

text \<open>
  In \<open>update_fails\<close> the repository raises on every partial update, and in
  \<open>create_fails\<close> it answers every \<^verbatim>\<open>create_child\<close> with a client error.
\<close>

fun fails_on_update :: "repo_call list \<Rightarrow> repo_call \<Rightarrow> error option" where
  "fails_on_update log (Update u) = Some (RepositoryError ''412 Precondition Failed'')"
| "fails_on_update log c = None"

definition update_fails :: collaborators where
  "update_fails = quiet\<lparr>repo_raises := fails_on_update\<rparr>"

fun fails_on_create :: "repo_call list \<Rightarrow> repo_call \<Rightarrow> error option" where
  "fails_on_create log (CreateChild c i) = Some (ClientError ''400 Bad Request'' ''no such container'')"
| "fails_on_create log c = None"

definition create_fails :: collaborators where
  "create_fails = quiet\<lparr>repo_raises := fails_on_create\<rparr>"

text \<open>
  Three items: one not yet in the repository, one in it with changes, one in it
  without; and the row of an item, to be published, with no files.
\<close>

definition new_item :: Item where
  "new_item = \<lparr>uri = ''urn:uuid:0001'', has_changes = False, item_identifier = Some ''id-1'',
     title = Some ''First'', rdf_type = {}, item_member_of = None, validate = Inr []\<rparr>"

definition changed_item :: Item where
  "changed_item = \<lparr>uri = ''http://localhost/rest/objects/2'', has_changes = True,
     item_identifier = Some ''id-2'', title = Some ''Second'', rdf_type = {},
     item_member_of = None, validate = Inr []\<rparr>"

definition same_item :: Item where
  "same_item = \<lparr>uri = ''http://localhost/rest/objects/3'', has_changes = False,
     item_identifier = Some ''id-3'', title = Some ''Third'', rdf_type = {},
     item_member_of = None, validate = Inr []\<rparr>"

definition example_row :: "string \<Rightarrow> Item \<Rightarrow> Row" where
  "example_row lr i = \<lparr>line_reference = lr,
     row_identifier = (case item_identifier i of None \<Rightarrow> lr | Some x \<Rightarrow> x),
     filenames = [], item_filenames = [], publish = True, hidden = False,
     has_files = False, has_item_files = False, file_groups = [],
     get_object = (\<lambda>read_from_repo. i)\<rparr>"

definition published :: "Item \<Rightarrow> Item" where
  "published i = i\<lparr>rdf_type := {umdaccess_Published}\<rparr>"

text \<open>
  A row that names a file the binaries location does not have, with its item; a sheet
  of four rows, the last an invalid row marker; the state of a run not yet started,
  of a run under way, and of a run of a job that has completed the first row before.
\<close>

definition orphan_item :: Item where
  "orphan_item = \<lparr>uri = ''urn:uuid:0004'', has_changes = False, item_identifier = Some ''id-4'',
     title = Some ''Fourth'', rdf_type = {}, item_member_of = None, validate = Inr []\<rparr>"

definition missing_row :: Row where
  "missing_row = \<lparr>line_reference = ''source.csv:4'', row_identifier = ''id-4'',
     filenames = [''missing.tif''], item_filenames = [], publish = False, hidden = False,
     has_files = True, has_item_files = False, file_groups = [(''missing'', [''missing.tif''])],
     get_object = (\<lambda>read_from_repo. orphan_item)\<rparr>"

definition example_rows :: "sheet_row list" where
  "example_rows =
     [WellFormed (example_row ''source.csv:2'' new_item),
      WellFormed (example_row ''source.csv:3'' changed_item),
      WellFormed missing_row,
      InvalidRow ''source.csv:5'' ''wrong number of columns'']"

definition example_sheet :: Metadata where
  "example_sheet = \<lparr>total = 4, has_binaries = True,
     selected = (\<lambda>limit percentage. example_rows)\<rparr>"

fun row_ref :: "sheet_row \<Rightarrow> string" where
  "row_ref (InvalidRow lr reason) = lr"
| "row_ref (WellFormed row) = line_reference row"

definition example_state :: state where
  "example_state = \<lparr>job = example_job, dir = None, timestamp = None,
     invalid_items_attr = None, failed_items_attr = None, files = Map.empty,
     repo_log = [], clock_reads = 0\<rparr>"

definition running_state :: state where
  "running_state = example_state\<lparr>dir := Some [''jobs'', ''job1'', ''20240101000000''],
     timestamp := Some ''20240101000000'', clock_reads := 2\<rparr>"

definition resumed_state :: state where
  "resumed_state = running_state\<lparr>job :=
     example_job\<lparr>completed_log := example_log\<lparr>item_keys := {Some ''id-1''}\<rparr>\<rparr>\<rparr>"

definition dropped_log :: "string \<Rightarrow> string option set \<Rightarrow> ItemLog" where
  "dropped_log name ks = \<lparr>filename = [''jobs'', ''job1'', ''20240101000000'', name],
     fieldnames = [''id'', ''timestamp'', ''title'', ''uri'', ''reason''], keyfield = ''id'',
     write_header = True, item_keys = ks\<rparr>"

text \<open>
  The run of the example sheet by a new job, importing and validating only, and the
  results these runs return.
\<close>

definition example_run :: "snapshot list \<times> (error + result) \<times> state" where
  "example_run = run quiet (Loaded example_sheet) None None False None example_state"

definition example_validation :: "snapshot list \<times> (error + result) \<times> state" where
  "example_validation = run quiet (Loaded example_sheet) None None True None example_state"

definition example_result :: result where
  "example_result = \<lparr>result_type = ''import_incomplete'', validation = [],
     result_count = [(''total_items'', 4), (''rows'', 0), (''errors'', 0),
       (''initially_completed_items'', 0), (''files'', 1), (''valid_items'', 2),
       (''invalid_items'', 1), (''created_items'', 1), (''updated_items'', 1),
       (''unchanged_items'', 0), (''skipped_items'', 0)]\<rparr>"

definition validation_result :: result where
  "validation_result = \<lparr>result_type = ''validate_failed'', validation = [],
     result_count = [(''total_items'', 4), (''rows'', 0), (''errors'', 0),
       (''initially_completed_items'', 0), (''files'', 1), (''valid_items'', 2),
       (''invalid_items'', 1), (''created_items'', 0), (''updated_items'', 0),
       (''unchanged_items'', 0), (''skipped_items'', 0)]\<rparr>"

text \<open>The job with an access class configured.\<close>

definition access_job :: ImportJob where
  "access_job = example_job\<lparr>config :=
     example_config\<lparr>access := Some ''http://vocab.lib.umd.edu/access#Public''\<rparr>\<rparr>"

text \<open>
  A ledger as \<^verbatim>\<open>ResourceList\<close> opens them, with or without header, its rows, and the
  key \<^verbatim>\<open>a\rb\<close> with what is read of it, \<^verbatim>\<open>a\nb\<close>.
\<close>

definition cx_path :: path where
  "cx_path = [''tmp'', ''buffer.csv'']"

definition cx_fields :: "string list" where
  "cx_fields = [''uri'', ''title'', ''timestamp'']"

definition cx_row :: "string \<Rightarrow> rowdict" where
  "cx_row u = [(''uri'', u), (''title'', ''T''), (''timestamp'', ''2024-01-01T00:00:00'')]"

definition cx_log :: "bool \<Rightarrow> string option set \<Rightarrow> ItemLog" where
  "cx_log hdr ks = \<lparr>filename = cx_path, fieldnames = cx_fields, keyfield = ''uri'',
     write_header = hdr, item_keys = ks\<rparr>"

definition cr_key :: string where
  "cr_key = [CHR ''a'', CHR 0x0D, CHR ''b'']"

definition lf_key :: string where
  "lf_key = [CHR ''a'', CHR 0x0A, CHR ''b'']"

section \<open>Verification\<close>

subsection \<open>The binary source resolver\<close>

lemma startswith_nth: "startswith s p \<Longrightarrow> n < length p \<Longrightarrow> s ! n = p ! n"
  unfolding startswith_def by (metis nth_take)

lemma zip_not_sftp: "startswith b ''zip:'' \<Longrightarrow> \<not> startswith b ''sftp:''"
  using startswith_nth [of b "''zip:''" 0] startswith_nth [of b "''sftp:''" 0] by auto

lemma zip_not_http:
  "startswith b ''zip:'' \<Longrightarrow> \<not> startswith b ''http:'' \<and> \<not> startswith b ''https:''"
  using startswith_nth [of b "''zip:''" 0] startswith_nth [of b "''http:''" 0]
    startswith_nth [of b "''https:''" 0]
  by auto

lemma zip_not_zip_sftp: "startswith b ''zip:'' \<Longrightarrow> \<not> startswith b ''zip+sftp:''"
  using startswith_nth [of b "''zip:''" 3] startswith_nth [of b "''zip+sftp:''" 3] by auto

lemma sftp_not_http:
  "startswith b ''sftp:'' \<Longrightarrow> \<not> startswith b ''http:'' \<and> \<not> startswith b ''https:''"
  using startswith_nth [of b "''sftp:''" 0] startswith_nth [of b "''http:''" 0]
    startswith_nth [of b "''https:''" 0]
  by auto

lemma zip_sftp_not_others:
  "startswith b ''zip+sftp:'' \<Longrightarrow>
     \<not> startswith b ''sftp:'' \<and> \<not> startswith b ''http:'' \<and> \<not> startswith b ''https:''"
  using startswith_nth [of b "''zip+sftp:''" 0] startswith_nth [of b "''sftp:''" 0]
    startswith_nth [of b "''http:''" 0] startswith_nth [of b "''https:''" 0]
  by auto

text \<open>
  C8. \<^verbatim>\<open>get_source\<close> is a function of the base location, the path and the job's key
  alone. A base location \<^verbatim>\<open>zip:P\<close> gives an archive handle over \<open>P\<close> for the path;
  \<^verbatim>\<open>sftp:\<close> gives a remote handle at the joined location with the job's key;
  \<^verbatim>\<open>http:\<close> and \<^verbatim>\<open>https:\<close> give an HTTP handle at the base location, closed by a
  slash if it lacks one, followed by the path; \<^verbatim>\<open>zip+sftp:\<close> gives an archive handle
  with the job's key; every other base location gives a local handle at the path join.
\<close>

theorem get_source_dispatch:
  "(startswith b ''zip:'' \<longrightarrow> get_source self b p = ZipFileSource (drop 4 b) p None)
   \<and> (startswith b ''sftp:'' \<longrightarrow>
        get_source self b p = RemoteFileSource (os_path_join b p) (ssh_private_key self))
   \<and> (startswith b ''http:'' \<or> startswith b ''https:'' \<longrightarrow>
        get_source self b p = HTTPFileSource ((if endswith b ''/'' then b else b @ ''/'') @ p))
   \<and> (startswith b ''zip+sftp:'' \<longrightarrow>
        get_source self b p = ZipFileSource (drop 4 b) p (Some (ssh_private_key self)))
   \<and> (\<not> startswith b ''zip:'' \<and> \<not> startswith b ''sftp:'' \<and> \<not> startswith b ''http:''
        \<and> \<not> startswith b ''https:'' \<and> \<not> startswith b ''zip+sftp:'' \<longrightarrow>
        get_source self b p = LocalFileSource (os_path_join b p))"
  using zip_not_sftp [of b] zip_not_http [of b] zip_not_zip_sftp [of b] sftp_not_http [of b]
    zip_sftp_not_others [of b]
  by (auto simp: get_source_def)

theorem get_source_dispatch_witness:
  "get_source example_job ''zip:/tmp/a.zip'' ''x/y.tif''
     = ZipFileSource ''/tmp/a.zip'' ''x/y.tif'' None
   \<and> get_source example_job ''sftp:u@host/dir'' ''a.tif''
     = RemoteFileSource ''sftp:u@host/dir/a.tif'' (Some ''/home/u/.ssh/id_rsa'')
   \<and> get_source example_job ''http://host/dir'' ''a.tif'' = HTTPFileSource ''http://host/dir/a.tif''
   \<and> get_source example_job ''https://host/dir/'' ''a.tif''
     = HTTPFileSource ''https://host/dir/a.tif''
   \<and> get_source example_job ''zip+sftp:u@host/a.zip'' ''x/y.tif''
     = ZipFileSource ''sftp:u@host/a.zip'' ''x/y.tif'' (Some (Some ''/home/u/.ssh/id_rsa''))
   \<and> get_source example_job ''/data'' ''a/b.txt'' = LocalFileSource ''/data/a/b.txt''"
  using get_source_dispatch [of "''zip:/tmp/a.zip''" example_job "''x/y.tif''"]
    get_source_dispatch [of "''sftp:u@host/dir''" example_job "''a.tif''"]
    get_source_dispatch [of "''http://host/dir''" example_job "''a.tif''"]
    get_source_dispatch [of "''https://host/dir/''" example_job "''a.tif''"]
    get_source_dispatch [of "''zip+sftp:u@host/a.zip''" example_job "''x/y.tif''"]
    get_source_dispatch [of "''/data''" example_job "''a/b.txt''"]
  by (simp add: startswith_def endswith_def os_path_join_def example_job_def)

subsection \<open>The item ledger\<close>

lemma load_keys_append:
  "load_keys k (rs @ [r]) ks =
     (case load_keys k rs ks of
        Inl e \<Rightarrow> Inl e
      | Inr K \<Rightarrow> (case r k of None \<Rightarrow> Inl (KeyError k) | Some v \<Rightarrow> Inr (insert v K)))"
  by (induction rs arbitrary: ks) (auto split: option.splits)

lemma map_of_rev_zip_map:
  "map_of (rev (zip xs (map f xs))) k = (if k \<in> set xs then Some (f k) else None)"
  by (induction xs) (auto simp: map_add_def split: option.splits)

lemma universal_newlines_plain: "plain s \<Longrightarrow> universal_newlines s = s"
  by (induction s rule: universal_newlines.induct) (auto simp: plain_def)

lemma universal_newlines_fields: "list_all plain fns \<Longrightarrow> map universal_newlines fns = fns"
  by (induction fns) (simp_all add: universal_newlines_plain)

lemma DictReader_row_cells:
  "DictReader_row fns (map universal_newlines (DictWriter_cells fns row)) k =
     (if k \<in> set fns
      then Some (Some (universal_newlines (case map_of row k of None \<Rightarrow> [] | Some v \<Rightarrow> v)))
      else None)"
  using map_of_rev_zip_map [of fns
      "\<lambda>f. Some (universal_newlines (case map_of row f of None \<Rightarrow> [] | Some v \<Rightarrow> v))" k]
  by (simp add: DictReader_row_def DictWriter_cells_def comp_def)

lemma ItemLog_rebuild:
  "(\<lparr>filename = filename l, fieldnames = fieldnames l, keyfield = keyfield l,
     write_header = write_header l, item_keys = K\<rparr> = l) = (item_keys l = K)"
  by (cases l) auto

lemma ItemLog_reopen_eq:
  "ItemLog_reopen l files0 = Inr l \<longleftrightarrow>
     (case files0 (filename l) of
        None \<Rightarrow> item_keys l = {}
      | Some f \<Rightarrow> load_keys (keyfield l) (ItemLog_iter l files0) {} = Inr (item_keys l))"
  by (cases l) (auto simp: ItemLog_reopen_def ItemLog_init_def ItemLog_exists_def Let_def ItemLog_iter_def
      split: sum.splits option.splits)

lemma append_in_sync:
  assumes "in_sync l fs0" "ItemLog_append l fs0 row = (Inr (), l', fs')"
    and p: "\<forall>k. map_of row (keyfield l) = Some k \<longrightarrow> plain k"
  shows "in_sync l' fs' \<and> (\<exists>k. map_of row (keyfield l) = Some k \<and> item_keys l' = insert (Some k) (item_keys l))
     \<and> filename l' = filename l \<and> fieldnames l' = fieldnames l \<and> keyfield l' = keyfield l"
proof -
  from assms(2) obtain k where k: "map_of row (keyfield l) = Some k" and d: "set (map fst row) \<subseteq> set (fieldnames l)"
    and l': "l' = l\<lparr>item_keys := insert (Some k) (item_keys l)\<rparr>"
    and fs': "fs' = write_line (filename l) (DictWriter_cells (fieldnames l) row) (ItemLog_writer l fs0)"
    by (auto simp: ItemLog_append_def Let_def split: if_splits option.splits)
  from k p have uk: "universal_newlines k = k" by (simp add: universal_newlines_plain)
  from k have "(keyfield l, k) \<in> set row" by (rule map_of_SomeD)
  then have "keyfield l \<in> fst ` set row" by force
  with d have kin: "keyfield l \<in> set (fieldnames l)" by auto
  then have ne: "DictWriter_cells (fieldnames l) row \<noteq> []" by (auto simp: DictWriter_cells_def)
  have reopen: "ItemLog_reopen l fs0 = Inr l" and wh: "write_header l"
    and pf: "list_all plain (fieldnames l)" using assms(1) by (auto simp: in_sync_def)
  note uf = universal_newlines_fields [OF pf]
  show ?thesis
  proof (cases "fs0 (filename l)")
    case None
    then have "item_keys l = {}" using reopen by (simp add: ItemLog_reopen_eq)
    then show ?thesis using None wh k kin ne pf uf uk
      by (simp add: in_sync_def l' fs' ItemLog_reopen_eq ItemLog_exists_def
        ItemLog_writer_def ItemLog_create_def write_line_def ItemLog_iter_def DictReader_row_cells)
  next
    case (Some f)
    then obtain body where f: "f = fieldnames l # body" using assms(1) by (auto simp: in_sync_def)
    have "load_keys (keyfield l) (map (DictReader_row (fieldnames l))
        (filter (\<lambda>r. r \<noteq> []) (map (map universal_newlines) body))) {} = Inr (item_keys l)"
      using reopen Some f uf by (simp add: ItemLog_reopen_eq ItemLog_iter_def)
    then show ?thesis using Some f wh k kin ne pf uf uk
      by (simp add: in_sync_def l' fs' ItemLog_reopen_eq ItemLog_exists_def
        ItemLog_writer_def ItemLog_create_def write_line_def ItemLog_iter_def DictReader_row_cells load_keys_append)
  qed
qed

lemma appends_in_sync:
  "in_sync l fs0 \<Longrightarrow> ItemLog_appends l fs0 rs = (Inr (), l', fs') \<Longrightarrow>
     \<forall>r \<in> set rs. \<forall>k. map_of r (keyfield l) = Some k \<longrightarrow> plain k \<Longrightarrow>
     in_sync l' fs' \<and> item_keys l' = item_keys l \<union> (\<lambda>r. map_of r (keyfield l)) ` set rs
     \<and> filename l' = filename l \<and> fieldnames l' = fieldnames l \<and> keyfield l' = keyfield l
     \<and> write_header l' = write_header l"
proof (induction rs arbitrary: l fs0)
  case Nil
  then show ?case by simp
next
  case (Cons r rs)
  from Cons.prems(2) obtain l1 fs1 where a: "ItemLog_append l fs0 r = (Inr (), l1, fs1)"
    and b: "ItemLog_appends l1 fs1 rs = (Inr (), l', fs')"
    by (auto split: prod.splits sum.splits)
  from Cons.prems(3) have p: "\<forall>k. map_of r (keyfield l) = Some k \<longrightarrow> plain k" by simp
  note s = append_in_sync [OF Cons.prems(1) a p]
  from s Cons.prems(3) have "\<forall>r \<in> set rs. \<forall>k. map_of r (keyfield l1) = Some k \<longrightarrow> plain k" by simp
  from s Cons.IH [OF _ b this] Cons.prems(1) show ?case by (auto simp: in_sync_def)
qed

lemma init_in_sync:
  assumes "ItemLog_init fs0 p fns kf True = Inr l"
    and "fs0 p = None \<or> (\<exists>body. fs0 p = Some (fns # body))"
    and "list_all plain fns"
  shows "in_sync l fs0 \<and> filename l = p \<and> fieldnames l = fns \<and> keyfield l = kf"
  using assms
  by (auto simp: in_sync_def ItemLog_reopen_def ItemLog_init_def Let_def ItemLog_exists_def ItemLog_iter_def
      split: sum.splits if_splits)

text \<open>
  What does hold of a ledger opened with header, over a backing file that is absent or
  begins with the ledger's field names, when neither the field names nor the keys
  appended contain a carriage return: after a sequence of appends none of which raises,
  a new ledger over the same file is the ledger in memory, and its keys are those it had
  with the keys appended. So from an absent file, appends with pairwise distinct keys
  give the length \<open>N\<close> and every appended key is contained; and appends of keys already
  present change neither the length nor any answer of \<^verbatim>\<open>contains\<close>.
\<close>

lemma ItemLog_round_trip_with_header:
  assumes "ItemLog_init fs0 p fns kf True = Inr l"
    and "fs0 p = None \<or> (\<exists>body. fs0 p = Some (fns # body))"
    and "list_all plain fns"
    and "\<forall>r \<in> set rs. \<forall>k. map_of r kf = Some k \<longrightarrow> plain k"
    and "ItemLog_appends l fs0 rs = (Inr (), l', fs')"
  shows "ItemLog_init fs' p fns kf True = Inr l'
    \<and> item_keys l' = item_keys l \<union> (\<lambda>r. map_of r kf) ` set rs
    \<and> (fs0 p = None \<and> distinct (map (\<lambda>r. map_of r kf) rs) \<longrightarrow>
         ItemLog_len l' = length rs \<and> (\<forall>r \<in> set rs. ItemLog_contains l' (map_of r kf)))
    \<and> ((\<forall>r \<in> set rs. ItemLog_contains l (map_of r kf)) \<longrightarrow>
         ItemLog_len l' = ItemLog_len l \<and> (\<forall>k. ItemLog_contains l' k = ItemLog_contains l k))"
proof -
  from init_in_sync [OF assms(1,2,3)] have s: "in_sync l fs0" and [simp]: "filename l = p" "fieldnames l = fns" "keyfield l = kf"
    by auto
  from assms(4) have "\<forall>r \<in> set rs. \<forall>k. map_of r (keyfield l) = Some k \<longrightarrow> plain k" by simp
  from appends_in_sync [OF s assms(5) this] have s': "in_sync l' fs'" and k: "item_keys l' = item_keys l \<union> (\<lambda>r. map_of r kf) ` set rs"
    and [simp]: "filename l' = p" "fieldnames l' = fns" "keyfield l' = kf" "write_header l'"
    using s by (auto simp: in_sync_def)
  from s' have 1: "ItemLog_init fs' p fns kf True = Inr l'" by (auto simp: in_sync_def ItemLog_reopen_def)
  have 3: "ItemLog_len l' = length rs \<and> (\<forall>r \<in> set rs. ItemLog_contains l' (map_of r kf))" if "fs0 p = None" "distinct (map (\<lambda>r. map_of r kf) rs)"
  proof -
    from that(1) assms(1) have "item_keys l = {}" by (auto simp: ItemLog_init_def Let_def ItemLog_exists_def)
    with k have e: "item_keys l' = set (map (\<lambda>r. map_of r kf) rs)" by simp
    from that(2) have "card (set (map (\<lambda>r. map_of r kf) rs)) = length rs"
      using distinct_card [of "map (\<lambda>r. map_of r kf) rs"] by simp
    with e show ?thesis by (auto simp: ItemLog_len_def ItemLog_contains_def)
  qed
  have 4: "ItemLog_len l' = ItemLog_len l \<and> (\<forall>k. ItemLog_contains l' k = ItemLog_contains l k)" if "\<forall>r \<in> set rs. ItemLog_contains l (map_of r kf)"
  proof -
    from that k have "item_keys l' = item_keys l" by (auto simp: ItemLog_contains_def)
    then show ?thesis by (simp add: ItemLog_len_def ItemLog_contains_def)
  qed
  from 1 k 3 4 show ?thesis by blast
qed

text \<open>Three ledgers evaluated: appends to a new ledger, then a new ledger over the file.\<close>

lemma nohdr_appends: "ItemLog_appends (cx_log False {}) Map.empty [cx_row ''a'']
   = (Inr (), cx_log False {Some ''a''}, [cx_path \<mapsto> [[''a'', ''T'', ''2024-01-01T00:00:00'']]])"
  by (simp add: ItemLog_append_def ItemLog_writer_def ItemLog_exists_def ItemLog_create_def
     write_line_def DictWriter_cells_def cx_log_def cx_row_def cx_fields_def)

lemma nohdr_reopen: "ItemLog_init [cx_path \<mapsto> [[''a'', ''T'', ''2024-01-01T00:00:00'']]] cx_path cx_fields ''uri'' False = Inr (cx_log False {})"
  by (simp add: ItemLog_init_def ItemLog_exists_def cx_log_def ItemLog_iter_def)

lemma nohdr_appends_two: "ItemLog_appends (cx_log False {}) Map.empty [cx_row ''a'', cx_row ''b'']
   = (Inr (), cx_log False {Some ''a'', Some ''b''},
      [cx_path \<mapsto> [[''a'', ''T'', ''2024-01-01T00:00:00''], [''b'', ''T'', ''2024-01-01T00:00:00'']]])"
  by (simp add: ItemLog_append_def ItemLog_writer_def ItemLog_exists_def ItemLog_create_def
     write_line_def DictWriter_cells_def cx_log_def cx_row_def cx_fields_def insert_commute)

lemma nohdr_reopen_two:
  "ItemLog_init [cx_path \<mapsto> [[''a'', ''T'', ''2024-01-01T00:00:00''], [''b'', ''T'', ''2024-01-01T00:00:00'']]]
     cx_path cx_fields ''uri'' False = Inl (KeyError ''uri'')"
  by (simp add: ItemLog_init_def ItemLog_exists_def ItemLog_iter_def DictReader_row_def)

lemma cr_appends: "ItemLog_appends (cx_log True {}) Map.empty [cx_row cr_key]
   = (Inr (), cx_log True {Some cr_key},
      [cx_path \<mapsto> [cx_fields, [cr_key, ''T'', ''2024-01-01T00:00:00'']]])"
  by (simp add: ItemLog_append_def ItemLog_writer_def ItemLog_exists_def ItemLog_create_def
     write_line_def DictWriter_cells_def cx_log_def cx_row_def cx_fields_def)

lemma cr_reopen:
  "ItemLog_init [cx_path \<mapsto> [cx_fields, [cr_key, ''T'', ''2024-01-01T00:00:00'']]]
     cx_path cx_fields ''uri'' True = Inr (cx_log True {Some lf_key})"
  by (simp add: ItemLog_init_def ItemLog_exists_def ItemLog_iter_def DictReader_row_def cx_log_def
     cx_fields_def cr_key_def lf_key_def)

text \<open>
  C6. The round trip fails. A ledger opened with \<^verbatim>\<open>header=False\<close> (as
  \<^verbatim>\<open>ResourceList.process\<close> opens its buffer) writes no header line, but \<^verbatim>\<open>__iter__\<close>
  reads the first line of every file as the field names: after one append a new
  ledger over the file has length 0 and does not contain the key appended, and after
  two appends with distinct keys the construction of a new ledger raises \<^verbatim>\<open>KeyError\<close>.
  A ledger with header that is given the key \<^verbatim>\<open>a\rb\<close> contains it, and a new ledger
  over its file contains \<^verbatim>\<open>a\nb\<close> in its place, the file being read in text mode.
\<close>

theorem ItemLog_round_trip_fails:
  "ItemLog_init Map.empty cx_path cx_fields ''uri'' False = Inr (cx_log False {})
   \<and> ItemLog_appends (cx_log False {}) Map.empty [cx_row ''a'']
      = (Inr (), cx_log False {Some ''a''}, [cx_path \<mapsto> [[''a'', ''T'', ''2024-01-01T00:00:00'']]])
   \<and> ItemLog_contains (cx_log False {Some ''a''}) (Some ''a'')
   \<and> ItemLog_init [cx_path \<mapsto> [[''a'', ''T'', ''2024-01-01T00:00:00'']]] cx_path cx_fields ''uri'' False
      = Inr (cx_log False {})
   \<and> ItemLog_len (cx_log False {}) = 0
   \<and> \<not> ItemLog_contains (cx_log False {}) (Some ''a'')
   \<and> ItemLog_appends (cx_log False {}) Map.empty [cx_row ''a'', cx_row ''b'']
      = (Inr (), cx_log False {Some ''a'', Some ''b''},
         [cx_path \<mapsto> [[''a'', ''T'', ''2024-01-01T00:00:00''], [''b'', ''T'', ''2024-01-01T00:00:00'']]])
   \<and> ItemLog_init
        [cx_path \<mapsto> [[''a'', ''T'', ''2024-01-01T00:00:00''], [''b'', ''T'', ''2024-01-01T00:00:00'']]]
        cx_path cx_fields ''uri'' False = Inl (KeyError ''uri'')
   \<and> ItemLog_init Map.empty cx_path cx_fields ''uri'' True = Inr (cx_log True {})
   \<and> ItemLog_appends (cx_log True {}) Map.empty [cx_row cr_key]
      = (Inr (), cx_log True {Some cr_key},
         [cx_path \<mapsto> [cx_fields, [cr_key, ''T'', ''2024-01-01T00:00:00'']]])
   \<and> ItemLog_contains (cx_log True {Some cr_key}) (Some cr_key)
   \<and> ItemLog_init [cx_path \<mapsto> [cx_fields, [cr_key, ''T'', ''2024-01-01T00:00:00'']]]
        cx_path cx_fields ''uri'' True = Inr (cx_log True {Some lf_key})
   \<and> ItemLog_len (cx_log True {Some lf_key}) = 1
   \<and> \<not> ItemLog_contains (cx_log True {Some lf_key}) (Some cr_key)"
proof -
  have i: "ItemLog_init Map.empty cx_path cx_fields ''uri'' hdr = Inr (cx_log hdr {})" for hdr
    by (simp add: ItemLog_init_def ItemLog_exists_def cx_log_def)
  have c: "ItemLog_contains (cx_log False {Some ''a''}) (Some ''a'')"
    "ItemLog_len (cx_log False {}) = 0"
    "\<not> ItemLog_contains (cx_log False {}) (Some ''a'')"
    "ItemLog_contains (cx_log True {Some cr_key}) (Some cr_key)"
    "ItemLog_len (cx_log True {Some lf_key}) = 1"
    "\<not> ItemLog_contains (cx_log True {Some lf_key}) (Some cr_key)"
    by (simp_all add: ItemLog_len_def ItemLog_contains_def cx_log_def cr_key_def lf_key_def)
  from i [of False] nohdr_appends c(1) nohdr_reopen c(2,3) nohdr_appends_two nohdr_reopen_two
    i [of True] cr_appends c(4) cr_reopen c(5,6)
  show ?thesis by (intro conjI) assumption+
qed


subsection \<open>The three-way decision of update_repo\<close>

lemma patch_calls_append: "patch_calls (a @ b) = patch_calls a + patch_calls b"
  by (simp add: patch_calls_def)

lemma repo_steps_calls:
  "repo_steps E steps cs = (r, cs') \<Longrightarrow> \<exists>new. cs' = cs @ new \<and> (\<forall>c \<in> set new. Inr c \<in> set steps)"
proof (induction E steps cs rule: repo_steps.induct)
  case (1 E calls)
  then show ?case by simp
next
  case (2 E e steps calls)
  then show ?case by simp
next
  case (3 E c steps calls)
  show ?case
  proof (cases "repo_raises E calls c")
    case None
    with 3 obtain new where "cs' = (calls @ [c]) @ new" "\<forall>x \<in> set new. Inr x \<in> set steps" by auto
    then show ?thesis by (intro exI [of _ "c # new"]) auto
  next
    case (Some e)
    with 3 show ?thesis by (intro exI [of _ "[c]"]) auto
  qed
qed

lemma repo_steps_quiet:
  "raises_nothing E \<Longrightarrow> repo_steps E (map Inr cs0) cs = (Inr (), cs @ cs0)"
  by (induction cs0 arbitrary: cs) (auto simp: raises_nothing_def)

lemma transaction_calls:
  assumes "transaction E steps cs = (r, cs')"
  shows "\<exists>new. cs' = cs @ new \<and> (\<forall>c \<in> set new. Inr c \<in> set steps \<or> c \<in> {TransactionBegin, TransactionCommit, TransactionRollback})"
proof -
  obtain r1 cs1 where 1: "repo_steps E [Inr TransactionBegin] cs = (r1, cs1)" by (cases "repo_steps E [Inr TransactionBegin] cs")
  from repo_steps_calls [OF 1] obtain n1 where n1: "cs1 = cs @ n1" "\<forall>c \<in> set n1. c = TransactionBegin" by auto
  show ?thesis
  proof (cases r1)
    case (Inl e)
    with assms 1 n1 show ?thesis by (auto simp: transaction_def)
  next
    case (Inr u)
    obtain r2 cs2 where 2: "repo_steps E steps cs1 = (r2, cs2)" by (cases "repo_steps E steps cs1")
    from repo_steps_calls [OF 2] obtain n2 where n2: "cs2 = cs1 @ n2" "\<forall>c \<in> set n2. Inr c \<in> set steps" by auto
    show ?thesis
    proof (cases r2)
      case (Inl e)
      obtain r3 cs3 where 3: "repo_steps E [Inr TransactionRollback] cs2 = (r3, cs3)" by (cases "repo_steps E [Inr TransactionRollback] cs2")
      from repo_steps_calls [OF 3] obtain n3 where n3: "cs3 = cs2 @ n3" "\<forall>c \<in> set n3. c = TransactionRollback" by auto
      from assms 1 2 3 Inl \<open>r1 = Inr u\<close> have "cs' = cs3" by (auto simp: transaction_def)
      with n1 n2 n3 show ?thesis by (intro exI [of _ "n1 @ n2 @ n3"]) auto
    next
      case (Inr u2)
      obtain r3 cs3 where 3: "repo_steps E [Inr TransactionCommit] cs2 = (r3, cs3)" by (cases "repo_steps E [Inr TransactionCommit] cs2")
      from repo_steps_calls [OF 3] obtain n3 where n3: "cs3 = cs2 @ n3" "\<forall>c \<in> set n3. c = TransactionCommit" by auto
      from assms 1 2 3 Inr \<open>r1 = Inr u\<close> have "cs' = cs3" by (auto simp: transaction_def)
      with n1 n2 n3 show ?thesis by (intro exI [of _ "n1 @ n2 @ n3"]) auto
    qed
  qed
qed

lemma creation_steps_no_patch: "Inr c \<in> set (creation_steps j row it) \<Longrightarrow> \<not> is_patch c"
  by (auto simp: creation_steps_def split: if_splits sum.splits)

lemma create_resource_no_patch:
  assumes "create_resource E j row it cs = (r, it', cs')"
  shows "patch_calls cs' = patch_calls cs"
proof (cases "tag_item E j row it")
  case (Inl e)
  with assms show ?thesis by (simp add: create_resource_def)
next
  case (Inr it1)
  obtain r1 cs1 where t: "transaction E (creation_steps j row it1) cs = (r1, cs1)"
    by (cases "transaction E (creation_steps j row it1) cs")
  from transaction_calls [OF t] obtain new where new: "cs1 = cs @ new"
    "\<forall>c \<in> set new. Inr c \<in> set (creation_steps j row it1) \<or> c \<in> {TransactionBegin, TransactionCommit, TransactionRollback}"
    by blast
  then have "\<forall>c \<in> set new. \<not> is_patch c" using creation_steps_no_patch by fastforce
  then have "filter is_patch new = []" by (simp add: filter_empty_conv)
  moreover from assms Inr t have "cs' = cs1" by (cases r1) (auto simp: create_resource_def)
  ultimately show ?thesis using new by (simp add: patch_calls_def)
qed

lemma group_sources_ok:
  "binaries_location (config j) = Some b \<Longrightarrow> \<exists>fs. group_sources j names = Inr fs"
  by (induction names) (auto simp: job_source_def)

lemma groups_sources_ok:
  "binaries_location (config j) = Some b \<Longrightarrow> \<exists>gs. groups_sources j groups = Inr gs"
proof (induction groups)
  case Nil
  then show ?case by simp
next
  case (Cons g groups)
  obtain n names where g: "g = (n, names)" by (cases g)
  from group_sources_ok [OF Cons.prems] obtain fs where "group_sources j names = Inr fs" by blast
  with Cons g show ?case by auto
qed

lemma creation_steps_ok:
  assumes "binaries_location (config j) = Some b"
  shows "\<exists>cs0. creation_steps j row it = map Inr cs0"
proof -
  from groups_sources_ok [OF assms] obtain gs where gs: "groups_sources j (file_groups row) = Inr gs" by blast
  have m: "map (\<lambda>name. case job_source j name of Inl e \<Rightarrow> Inl e | Inr source \<Rightarrow> Inr (CreateFile source)) names
      = map Inr (map (\<lambda>name. CreateFile (get_source j b name)) names)" for names
    using assms by (simp add: job_source_def)
  show ?thesis
    by (rule exI [of _ "[CreateChild (container (config j)) it]
        @ (if has_files row then [CreatePageSequence gs] else [])
        @ (if has_item_files row then map (\<lambda>name. CreateFile (get_source j b name)) (item_filenames row) else [])"])
       (simp add: creation_steps_def gs m)
qed

lemma transaction_quiet:
  assumes "raises_nothing E"
  shows "fst (transaction E (map Inr cs0) cs) = Inr ()"
  using repo_steps_quiet [OF assms, of "[TransactionBegin]" cs]
    repo_steps_quiet [OF assms, of cs0 "cs @ [TransactionBegin]"]
    repo_steps_quiet [OF assms, of "[TransactionCommit]" "(cs @ [TransactionBegin]) @ cs0"]
  by (simp add: transaction_def)

lemma create_resource_quiet:
  assumes "raises_nothing E" "access (config j) = None" "binaries_location (config j) = Some b"
  shows "fst (create_resource E j row it cs) = Inr ()"
proof -
  from assms(2) obtain it1 where t: "tag_item E j row it = Inr it1"
    by (simp add: tag_item_def job_access_def Let_def)
  from creation_steps_ok [OF assms(3)] obtain cs0 where "creation_steps j row it1 = map Inr cs0" by blast
  with transaction_quiet [OF assms(1), of cs0 cs] t show ?thesis
    by (cases "transaction E (map Inr cs0) cs") (auto simp: create_resource_def)
qed

lemma update_repo_new:
  assumes "update_repo E j row it cs = (r, it', cs')" and new: "startswith (uri it) ''urn:uuid:''"
  shows "r = (case fst (create_resource E j row it cs) of Inl e \<Rightarrow> Inl e | Inr u \<Rightarrow> Inr CREATED)
         \<and> (it', cs') = snd (create_resource E j row it cs)
         \<and> patch_calls cs' = patch_calls cs
         \<and> (raises_nothing E \<and> access (config j) = None \<and> binaries_location (config j) \<noteq> None
              \<longrightarrow> r = Inr CREATED)"
proof -
  obtain r1 it1 cs1 where c: "create_resource E j row it cs = (r1, it1, cs1)"
    by (cases "create_resource E j row it cs")
  from assms c have 1: "r = (case fst (create_resource E j row it cs) of Inl e \<Rightarrow> Inl e | Inr u \<Rightarrow> Inr CREATED)"
    by (cases r1) (auto simp: update_repo_def)
  from assms c have 2: "(it', cs') = snd (create_resource E j row it cs)"
    by (cases r1) (auto simp: update_repo_def)
  with c create_resource_no_patch [OF c] have 3: "patch_calls cs' = patch_calls cs" by simp
  have 4: "r = Inr CREATED"
    if q: "raises_nothing E \<and> access (config j) = None \<and> binaries_location (config j) \<noteq> None"
  proof -
    from q obtain b where "binaries_location (config j) = Some b" by auto
    with q create_resource_quiet [of E j b row it cs] have "fst (create_resource E j row it cs) = Inr ()"
      by simp
    with 1 show ?thesis by simp
  qed
  from 1 2 3 4 show ?thesis by blast
qed

lemma update_repo_changed:
  assumes "update_repo E j row it cs = (r, it', cs')"
    and a: "\<not> startswith (uri it) ''urn:uuid:''" "has_changes it"
  shows "it' = it
         \<and> (r = Inr MODIFIED \<or> (\<exists>e. r = Inl (update_error e)))
         \<and> patch_calls cs' \<le> patch_calls cs + 1
         \<and> (r = Inr MODIFIED \<longrightarrow>
               cs' = cs @ [Read (uri it), AttachDescription (uri it), Update (uri it)]
               \<and> patch_calls cs' = patch_calls cs + 1)
         \<and> (raises_nothing E \<longrightarrow> r = Inr MODIFIED)"
proof -
  let ?steps = "[Inr (Read (uri it)), Inr (AttachDescription (uri it)), Inr (Update (uri it))]"
  obtain r1 cs1 where s: "repo_steps E ?steps cs = (r1, cs1)" by (cases "repo_steps E ?steps cs")
  from assms s have 1: "it' = it" by (cases r1) (auto simp: update_repo_def)
  from assms s have 2: "r = Inr MODIFIED \<or> (\<exists>e. r = Inl (update_error e))"
    by (cases r1) (auto simp: update_repo_def)
  from assms s have cs1: "cs' = cs1" by (cases r1) (auto simp: update_repo_def)
  from s have 3: "patch_calls cs' \<le> patch_calls cs + 1"
    unfolding cs1 by (auto simp: patch_calls_def split: option.splits)
  have 4: "cs' = cs @ [Read (uri it), AttachDescription (uri it), Update (uri it)]
          \<and> patch_calls cs' = patch_calls cs + 1" if "r = Inr MODIFIED"
  proof -
    from that assms s have "r1 = Inr ()" by (cases r1) (auto simp: update_repo_def)
    with s have "cs1 = cs @ [Read (uri it), AttachDescription (uri it), Update (uri it)]"
      by (auto split: option.splits)
    then show ?thesis unfolding cs1 by (simp add: patch_calls_def)
  qed
  have 5: "r = Inr MODIFIED" if "raises_nothing E"
    using that assms by (auto simp: update_repo_def raises_nothing_def)
  from 1 2 3 4 5 show ?thesis by blast
qed

lemma update_error_cases:
  "update_error e = (case e of RepositoryError m \<Rightarrow> JobError [''Updating item failed: '' @ m] | _ \<Rightarrow> e)"
  by (cases e) simp_all

lemma creation_error_cases:
  "creation_error j e =
     (case e of ClientError m t \<Rightarrow> JobError [job_ident j, ''Creating item failed: '' @ m, t] | _ \<Rightarrow> e)"
  by (cases e) simp_all

lemma update_repo_failing_call:
  assumes "update_repo E j row it cs = (r, it', cs')"
    and a: "\<not> startswith (uri it) ''urn:uuid:''" "has_changes it"
  shows "(\<forall>e. repo_raises E cs (Read (uri it)) = Some e \<longrightarrow>
            r = Inl (case e of RepositoryError m \<Rightarrow> JobError [''Updating item failed: '' @ m] | _ \<Rightarrow> e)
            \<and> cs' = cs @ [Read (uri it)])
       \<and> (\<forall>e. repo_raises E cs (Read (uri it)) = None
              \<and> repo_raises E (cs @ [Read (uri it)]) (AttachDescription (uri it)) = Some e \<longrightarrow>
            r = Inl (case e of RepositoryError m \<Rightarrow> JobError [''Updating item failed: '' @ m] | _ \<Rightarrow> e)
            \<and> cs' = cs @ [Read (uri it), AttachDescription (uri it)])
       \<and> (\<forall>e. repo_raises E cs (Read (uri it)) = None
              \<and> repo_raises E (cs @ [Read (uri it)]) (AttachDescription (uri it)) = None
              \<and> repo_raises E (cs @ [Read (uri it), AttachDescription (uri it)]) (Update (uri it)) = Some e \<longrightarrow>
            r = Inl (case e of RepositoryError m \<Rightarrow> JobError [''Updating item failed: '' @ m] | _ \<Rightarrow> e)
            \<and> cs' = cs @ [Read (uri it), AttachDescription (uri it), Update (uri it)])
       \<and> (repo_raises E cs (Read (uri it)) = None
              \<and> repo_raises E (cs @ [Read (uri it)]) (AttachDescription (uri it)) = None
              \<and> repo_raises E (cs @ [Read (uri it), AttachDescription (uri it)]) (Update (uri it)) = None \<longrightarrow>
            r = Inr MODIFIED
            \<and> cs' = cs @ [Read (uri it), AttachDescription (uri it), Update (uri it)])"
  using assms by (auto simp: update_repo_def update_error_cases)

lemma transaction_begin_raises:
  "repo_raises E cs TransactionBegin = Some e \<Longrightarrow> transaction E steps cs = (Inl e, cs @ [TransactionBegin])"
  by (simp add: transaction_def)

lemma transaction_first_raises:
  "repo_raises E cs TransactionBegin = None \<Longrightarrow> repo_raises E (cs @ [TransactionBegin]) c = Some e \<Longrightarrow>
     transaction E (Inr c # steps) cs = (Inl e, cs @ [TransactionBegin, c, TransactionRollback])"
  by (simp add: transaction_def split: option.splits)

lemma update_repo_creation:
  assumes "update_repo E j row it cs = (r, it', cs')"
    and new: "startswith (uri it) ''urn:uuid:''"
    and t: "tag_item E j row it = Inr it1"
  shows "(\<forall>cs1. transaction E (creation_steps j row it1) cs = (Inr (), cs1) \<longrightarrow>
            r = Inr CREATED \<and> it' = created E it1 \<and> cs' = cs1)
       \<and> (\<forall>e cs1. transaction E (creation_steps j row it1) cs = (Inl e, cs1) \<longrightarrow>
            r = Inl (case e of ClientError m t \<Rightarrow> JobError [job_ident j, ''Creating item failed: '' @ m, t]
                     | _ \<Rightarrow> e)
            \<and> it' = it1 \<and> cs' = cs1)
       \<and> (\<forall>e. repo_raises E cs TransactionBegin = Some e \<longrightarrow>
            r = Inl (case e of ClientError m t \<Rightarrow> JobError [job_ident j, ''Creating item failed: '' @ m, t]
                     | _ \<Rightarrow> e)
            \<and> it' = it1 \<and> cs' = cs @ [TransactionBegin])
       \<and> (\<forall>e. repo_raises E cs TransactionBegin = None
              \<and> repo_raises E (cs @ [TransactionBegin]) (CreateChild (container (config j)) it1) = Some e \<longrightarrow>
            r = Inl (case e of ClientError m t \<Rightarrow> JobError [job_ident j, ''Creating item failed: '' @ m, t]
                     | _ \<Rightarrow> e)
            \<and> it' = it1
            \<and> cs' = cs @ [TransactionBegin, CreateChild (container (config j)) it1, TransactionRollback])"
proof -
  have u: "update_repo E j row it cs =
      (case transaction E (creation_steps j row it1) cs of
         (Inl e, cs1) \<Rightarrow> (Inl (creation_error j e), it1, cs1)
       | (Inr u, cs1) \<Rightarrow> (Inr CREATED, created E it1, cs1))"
    using new t by (simp add: update_repo_def create_resource_def split: prod.splits sum.splits)
  have 1: "r = Inr CREATED \<and> it' = created E it1 \<and> cs' = cs1"
    if "transaction E (creation_steps j row it1) cs = (Inr (), cs1)" for cs1
    using that assms(1) u by simp
  have 2: "r = Inl (case e of ClientError m t \<Rightarrow> JobError [job_ident j, ''Creating item failed: '' @ m, t]
                     | _ \<Rightarrow> e) \<and> it' = it1 \<and> cs' = cs1"
    if "transaction E (creation_steps j row it1) cs = (Inl e, cs1)" for e cs1
    using that assms(1) u by (simp add: creation_error_cases)
  have 3: "r = Inl (case e of ClientError m t \<Rightarrow> JobError [job_ident j, ''Creating item failed: '' @ m, t]
                     | _ \<Rightarrow> e) \<and> it' = it1 \<and> cs' = cs @ [TransactionBegin]"
    if "repo_raises E cs TransactionBegin = Some e" for e
    using 2 [OF transaction_begin_raises [OF that]] .
  have c: "creation_steps j row it1 = Inr (CreateChild (container (config j)) it1) # tl (creation_steps j row it1)"
    by (simp add: creation_steps_def)
  have 4: "r = Inl (case e of ClientError m t \<Rightarrow> JobError [job_ident j, ''Creating item failed: '' @ m, t]
                     | _ \<Rightarrow> e) \<and> it' = it1
           \<and> cs' = cs @ [TransactionBegin, CreateChild (container (config j)) it1, TransactionRollback]"
    if "repo_raises E cs TransactionBegin = None
        \<and> repo_raises E (cs @ [TransactionBegin]) (CreateChild (container (config j)) it1) = Some e" for e
  proof -
    from that transaction_first_raises [of E cs "CreateChild (container (config j)) it1" e "tl (creation_steps j row it1)"] c
    have "transaction E (creation_steps j row it1) cs
        = (Inl e, cs @ [TransactionBegin, CreateChild (container (config j)) it1, TransactionRollback])"
      by simp
    from 2 [OF this] show ?thesis .
  qed
  from 1 2 3 4 show ?thesis by blast
qed


text \<open>
  C2, as amended. \<^verbatim>\<open>update_repo\<close> decides three ways.

  An item whose identity is still a placeholder takes the creation path, on which no
  partial update is issued; the outcome is that of \<^verbatim>\<open>create_resource\<close>, with \<^verbatim>\<open>CREATED\<close>
  when it returns. Once the item is tagged the creation runs in a transaction:
  \<^verbatim>\<open>CREATED\<close> is returned, with the item as \<^verbatim>\<open>create_child\<close> leaves it, exactly when the
  transaction ends without exception; otherwise the exception that ends the transaction
  is raised, a \<^verbatim>\<open>ClientError\<close> with message \<open>m\<close> and response text \<open>t\<close> as
  \<^verbatim>\<open>JobError(job, 'Creating item failed: m', t)\<close> and any other exception as it is. So it
  is when the beginning of the transaction raises, which is then the last call, and
  when \<^verbatim>\<open>create_child\<close> raises, after which the transaction is rolled back. For a job
  without access class and with a binaries location \<^verbatim>\<open>CREATED\<close> is returned when the
  repository raises on no call.

  Otherwise an item with changes is read, described and updated. When none of the three
  calls raises, the result is \<^verbatim>\<open>MODIFIED\<close> after exactly these calls, one partial update
  among them. When one of them raises, it is the last call made and its exception is
  raised, a \<^verbatim>\<open>RepositoryError\<close> with message \<open>m\<close> as
  \<^verbatim>\<open>JobError('Updating item failed: m')\<close> and any other exception as it is; so at most one
  partial update is issued, and none when the read or the description raises.

  Otherwise no call is made on the repository and the result is \<^verbatim>\<open>UNCHANGED\<close>.
\<close>

theorem update_repo_three_way:
  assumes "update_repo E j row it cs = (r, it', cs')"
  shows "(startswith (uri it) ''urn:uuid:'' \<longrightarrow>
            r = (case fst (create_resource E j row it cs) of Inl e \<Rightarrow> Inl e | Inr u \<Rightarrow> Inr CREATED)
            \<and> (it', cs') = snd (create_resource E j row it cs)
            \<and> patch_calls cs' = patch_calls cs
            \<and> (\<forall>it1. tag_item E j row it = Inr it1 \<longrightarrow>
                  (\<forall>cs1. transaction E (creation_steps j row it1) cs = (Inr (), cs1) \<longrightarrow>
                     r = Inr CREATED \<and> it' = created E it1 \<and> cs' = cs1)
                  \<and> (\<forall>e cs1. transaction E (creation_steps j row it1) cs = (Inl e, cs1) \<longrightarrow>
                     r = Inl (case e of
                                ClientError m t \<Rightarrow>
                                  JobError [job_ident j, ''Creating item failed: '' @ m, t]
                              | _ \<Rightarrow> e)
                     \<and> it' = it1 \<and> cs' = cs1)
                  \<and> (\<forall>e. repo_raises E cs TransactionBegin = Some e \<longrightarrow>
                     r = Inl (case e of
                                ClientError m t \<Rightarrow>
                                  JobError [job_ident j, ''Creating item failed: '' @ m, t]
                              | _ \<Rightarrow> e)
                     \<and> it' = it1 \<and> cs' = cs @ [TransactionBegin])
                  \<and> (\<forall>e. repo_raises E cs TransactionBegin = None
                         \<and> repo_raises E (cs @ [TransactionBegin])
                              (CreateChild (container (config j)) it1) = Some e \<longrightarrow>
                     r = Inl (case e of
                                ClientError m t \<Rightarrow>
                                  JobError [job_ident j, ''Creating item failed: '' @ m, t]
                              | _ \<Rightarrow> e)
                     \<and> it' = it1
                     \<and> cs' = cs @ [TransactionBegin, CreateChild (container (config j)) it1,
                                    TransactionRollback]))
            \<and> (raises_nothing E \<and> access (config j) = None \<and> binaries_location (config j) \<noteq> None
                 \<longrightarrow> r = Inr CREATED))
       \<and> (\<not> startswith (uri it) ''urn:uuid:'' \<and> has_changes it \<longrightarrow>
            it' = it
            \<and> (\<forall>e. repo_raises E cs (Read (uri it)) = Some e \<longrightarrow>
                  r = Inl (case e of
                             RepositoryError m \<Rightarrow> JobError [''Updating item failed: '' @ m]
                           | _ \<Rightarrow> e)
                  \<and> cs' = cs @ [Read (uri it)])
            \<and> (\<forall>e. repo_raises E cs (Read (uri it)) = None
                   \<and> repo_raises E (cs @ [Read (uri it)]) (AttachDescription (uri it)) = Some e \<longrightarrow>
                  r = Inl (case e of
                             RepositoryError m \<Rightarrow> JobError [''Updating item failed: '' @ m]
                           | _ \<Rightarrow> e)
                  \<and> cs' = cs @ [Read (uri it), AttachDescription (uri it)])
            \<and> (\<forall>e. repo_raises E cs (Read (uri it)) = None
                   \<and> repo_raises E (cs @ [Read (uri it)]) (AttachDescription (uri it)) = None
                   \<and> repo_raises E (cs @ [Read (uri it), AttachDescription (uri it)])
                        (Update (uri it)) = Some e \<longrightarrow>
                  r = Inl (case e of
                             RepositoryError m \<Rightarrow> JobError [''Updating item failed: '' @ m]
                           | _ \<Rightarrow> e)
                  \<and> cs' = cs @ [Read (uri it), AttachDescription (uri it), Update (uri it)])
            \<and> (repo_raises E cs (Read (uri it)) = None
                   \<and> repo_raises E (cs @ [Read (uri it)]) (AttachDescription (uri it)) = None
                   \<and> repo_raises E (cs @ [Read (uri it), AttachDescription (uri it)])
                        (Update (uri it)) = None \<longrightarrow>
                  r = Inr MODIFIED
                  \<and> cs' = cs @ [Read (uri it), AttachDescription (uri it), Update (uri it)])
            \<and> patch_calls cs' \<le> patch_calls cs + 1
            \<and> (r = Inr MODIFIED \<longrightarrow>
                  cs' = cs @ [Read (uri it), AttachDescription (uri it), Update (uri it)]
                  \<and> patch_calls cs' = patch_calls cs + 1)
            \<and> (raises_nothing E \<longrightarrow> r = Inr MODIFIED))
       \<and> (\<not> startswith (uri it) ''urn:uuid:'' \<and> \<not> has_changes it \<longrightarrow>
            r = Inr UNCHANGED \<and> it' = it \<and> cs' = cs)"
    (is "(_ \<longrightarrow> ?N) \<and> (_ \<longrightarrow> ?M) \<and> (_ \<longrightarrow> ?U)")
proof -
  have N: ?N if new: "startswith (uri it) ''urn:uuid:''"
  proof -
    from update_repo_new [OF assms new]
    have a: "r = (case fst (create_resource E j row it cs) of Inl e \<Rightarrow> Inl e | Inr u \<Rightarrow> Inr CREATED)"
      "(it', cs') = snd (create_resource E j row it cs)"
      "patch_calls cs' = patch_calls cs"
      "raises_nothing E \<and> access (config j) = None \<and> binaries_location (config j) \<noteq> None
         \<longrightarrow> r = Inr CREATED"
      by blast+
    note c = update_repo_creation [OF assms new]
    show ?thesis
      apply (intro conjI allI)
          apply (rule a(1))
         apply (rule a(2))
        apply (rule a(3))
       apply (rule impI)
       apply (erule c)
      apply (rule a(4))
      done
  qed
  have M: ?M if chg: "\<not> startswith (uri it) ''urn:uuid:''" "has_changes it"
  proof -
    from update_repo_changed [OF assms chg]
    have a: "it' = it"
      "patch_calls cs' \<le> patch_calls cs + 1"
      "r = Inr MODIFIED \<longrightarrow>
         cs' = cs @ [Read (uri it), AttachDescription (uri it), Update (uri it)]
         \<and> patch_calls cs' = patch_calls cs + 1"
      "raises_nothing E \<longrightarrow> r = Inr MODIFIED"
      by blast+
    note f = update_repo_failing_call [OF assms chg]
    show ?thesis
      apply (intro conjI)
             apply (rule a(1))
            apply (rule f [THEN conjunct1])
           apply (rule f [THEN conjunct2, THEN conjunct1])
          apply (rule f [THEN conjunct2, THEN conjunct2, THEN conjunct1])
         apply (rule f [THEN conjunct2, THEN conjunct2, THEN conjunct2])
        apply (rule a(2))
       apply (rule a(3))
      apply (rule a(4))
      done
  qed
  have U: ?U if "\<not> startswith (uri it) ''urn:uuid:''" "\<not> has_changes it"
    using that assms by (auto simp: update_repo_def)
  show ?thesis
    apply (rule conjI)
     apply (rule impI)
     apply (erule N)
    apply (rule conjI)
     apply (rule impI)
     apply (erule conjE)
     apply (rule M)
      apply assumption
     apply assumption
    apply (rule impI)
    apply (erule conjE)
    apply (rule U)
     apply assumption
    apply assumption
    done
qed

text \<open>
  The witness: a new item, a changed item and an unchanged item in a repository that
  raises on no call; the changed item where the partial update raises; the new item where
  \<^verbatim>\<open>create_child\<close> raises.
\<close>

lemma eval_new:
  "update_repo quiet example_job (example_row ''source.csv:2'' new_item) new_item []
     = (Inr CREATED, published new_item,
        [TransactionBegin, CreateChild (Some ''/objects'') (published new_item), TransactionCommit])"
  by (simp add: update_repo_def create_resource_def tag_item_def job_access_def job_member_of_def
      job_extract_text_types_def transaction_def creation_steps_def startswith_def
      quiet_def example_job_def example_config_def example_row_def new_item_def published_def)

lemma eval_changed:
  "update_repo quiet example_job (example_row ''source.csv:3'' changed_item) changed_item []
     = (Inr MODIFIED, changed_item,
        [Read ''http://localhost/rest/objects/2'', AttachDescription ''http://localhost/rest/objects/2'',
         Update ''http://localhost/rest/objects/2''])"
  by (simp add: update_repo_def startswith_def quiet_def changed_item_def)

lemma eval_same:
  "update_repo quiet example_job (example_row ''source.csv:4'' same_item) same_item []
     = (Inr UNCHANGED, same_item, [])"
  by (simp add: update_repo_def startswith_def same_item_def)

theorem update_repo_three_way_witness:
  "update_repo quiet example_job (example_row ''source.csv:2'' new_item) new_item []
     = (Inr CREATED, published new_item,
        [TransactionBegin, CreateChild (Some ''/objects'') (published new_item), TransactionCommit])
   \<and> patch_calls [TransactionBegin, CreateChild (Some ''/objects'') (published new_item),
        TransactionCommit] = 0
   \<and> update_repo quiet example_job (example_row ''source.csv:3'' changed_item) changed_item []
     = (Inr MODIFIED, changed_item,
        [Read ''http://localhost/rest/objects/2'', AttachDescription ''http://localhost/rest/objects/2'',
         Update ''http://localhost/rest/objects/2''])
   \<and> patch_calls [Read ''http://localhost/rest/objects/2'',
        AttachDescription ''http://localhost/rest/objects/2'',
        Update ''http://localhost/rest/objects/2''] = 1
   \<and> update_repo quiet example_job (example_row ''source.csv:4'' same_item) same_item []
     = (Inr UNCHANGED, same_item, [])
   \<and> repo_raises update_fails
        [Read ''http://localhost/rest/objects/2'', AttachDescription ''http://localhost/rest/objects/2'']
        (Update ''http://localhost/rest/objects/2'') = Some (RepositoryError ''412 Precondition Failed'')
   \<and> fst (update_repo update_fails example_job (example_row ''source.csv:3'' changed_item)
        changed_item []) = Inl (JobError [''Updating item failed: 412 Precondition Failed''])
   \<and> snd (snd (update_repo update_fails example_job (example_row ''source.csv:3'' changed_item)
        changed_item []))
      = [Read ''http://localhost/rest/objects/2'', AttachDescription ''http://localhost/rest/objects/2'',
         Update ''http://localhost/rest/objects/2'']
   \<and> repo_raises create_fails [TransactionBegin] (CreateChild (Some ''/objects'') (published new_item))
      = Some (ClientError ''400 Bad Request'' ''no such container'')
   \<and> fst (update_repo create_fails example_job (example_row ''source.csv:2'' new_item) new_item [])
      = Inl (JobError [''job1'', ''Creating item failed: 400 Bad Request'', ''no such container''])
   \<and> snd (snd (update_repo create_fails example_job (example_row ''source.csv:2'' new_item) new_item []))
      = [TransactionBegin, CreateChild (Some ''/objects'') (published new_item), TransactionRollback]"
proof -
  have n: "startswith (uri new_item) ''urn:uuid:''" by (simp add: startswith_def new_item_def)
  have c: "\<not> startswith (uri changed_item) ''urn:uuid:'' \<and> has_changes changed_item"
    by (simp add: startswith_def changed_item_def)
  have p: "patch_calls [] = 0" by (simp add: patch_calls_def)
  from update_repo_three_way [OF eval_new] n p
  have 1: "patch_calls [TransactionBegin, CreateChild (Some ''/objects'') (published new_item),
        TransactionCommit] = 0" by simp
  have u: "uri changed_item = ''http://localhost/rest/objects/2''" by (simp add: changed_item_def)
  from update_repo_three_way [OF eval_changed] c p u
  have 2: "patch_calls [Read ''http://localhost/rest/objects/2'',
        AttachDescription ''http://localhost/rest/objects/2'',
        Update ''http://localhost/rest/objects/2''] = 1" by simp
  let ?U = "update_repo update_fails example_job (example_row ''source.csv:3'' changed_item)
        changed_item []"
  have ru: "repo_raises update_fails [] (Read (uri changed_item)) = None
     \<and> repo_raises update_fails ([] @ [Read (uri changed_item)]) (AttachDescription (uri changed_item)) = None
     \<and> repo_raises update_fails ([] @ [Read (uri changed_item), AttachDescription (uri changed_item)])
          (Update (uri changed_item)) = Some (RepositoryError ''412 Precondition Failed'')"
    by (simp add: update_fails_def)
  have "?U = (fst ?U, fst (snd ?U), snd (snd ?U))" by simp
  note U = update_repo_three_way [OF this, THEN conjunct2, THEN conjunct1, THEN mp, OF c]
  note U3 = U [THEN conjunct2, THEN conjunct2, THEN conjunct2, THEN conjunct1, THEN spec, THEN mp, OF ru]
  from U3 ru
  have 3: "repo_raises update_fails
        [Read ''http://localhost/rest/objects/2'', AttachDescription ''http://localhost/rest/objects/2'']
        (Update ''http://localhost/rest/objects/2'') = Some (RepositoryError ''412 Precondition Failed'')"
    "fst ?U = Inl (JobError [''Updating item failed: 412 Precondition Failed''])"
    "snd (snd ?U) = [Read ''http://localhost/rest/objects/2'', AttachDescription ''http://localhost/rest/objects/2'',
         Update ''http://localhost/rest/objects/2'']"
    by (simp_all add: u)
  let ?C = "update_repo create_fails example_job (example_row ''source.csv:2'' new_item) new_item []"
  have t: "tag_item create_fails example_job (example_row ''source.csv:2'' new_item) new_item
      = Inr (published new_item)"
    by (simp add: tag_item_def job_access_def job_member_of_def job_extract_text_types_def
        create_fails_def quiet_def example_job_def example_config_def example_row_def new_item_def
        published_def)
  have cj: "container (config example_job) = Some ''/objects''" "job_ident example_job = ''job1''"
    by (simp_all add: example_job_def example_config_def)
  have rc: "repo_raises create_fails [] TransactionBegin = None
     \<and> repo_raises create_fails ([] @ [TransactionBegin])
          (CreateChild (container (config example_job)) (published new_item))
        = Some (ClientError ''400 Bad Request'' ''no such container'')"
    by (simp add: create_fails_def)
  have "?C = (fst ?C, fst (snd ?C), snd (snd ?C))" by simp
  note C = update_repo_three_way [OF this, THEN conjunct1, THEN mp, OF n]
  note C4 = C [THEN conjunct2, THEN conjunct2, THEN conjunct2, THEN conjunct1, THEN spec, THEN mp, OF t,
    THEN conjunct2, THEN conjunct2, THEN conjunct2, THEN spec, THEN mp, OF rc]
  from C4 rc
  have 4: "repo_raises create_fails [TransactionBegin] (CreateChild (Some ''/objects'') (published new_item))
      = Some (ClientError ''400 Bad Request'' ''no such container'')"
    "fst ?C = Inl (JobError [''job1'', ''Creating item failed: 400 Bad Request'', ''no such container''])"
    "snd (snd ?C) = [TransactionBegin, CreateChild (Some ''/objects'') (published new_item), TransactionRollback]"
    by (simp_all add: cj)
  from eval_new 1 eval_changed 2 eval_same 3 4 show ?thesis by (intro conjI) assumption+
qed

text \<open>
  C2 as stated fails where the repository raises: the item differs from the repository's
  state, the read raises \<^verbatim>\<open>RepositoryError\<close>, and \<^verbatim>\<open>update_repo\<close> raises a \<^verbatim>\<open>JobError\<close>
  with no partial update issued.
\<close>

theorem update_repo_three_way_counterexample:
  "\<not> startswith (uri changed_item) ''urn:uuid:'' \<and> has_changes changed_item
   \<and> update_repo read_fails example_job (example_row ''source.csv:3'' changed_item) changed_item []
     = (Inl (JobError [''Updating item failed: 404 Not Found'']), changed_item,
        [Read ''http://localhost/rest/objects/2''])
   \<and> patch_calls [Read ''http://localhost/rest/objects/2''] = 0"
  by (simp add: update_repo_def startswith_def read_fails_def quiet_def changed_item_def patch_calls_def)

subsection \<open>The access class of a new item\<close>

text \<open>
  C9. With an access class configured, the creation of a new item does not add the
  class and does not create the resource: reading the property \<^verbatim>\<open>self.job.access\<close>
  raises \<^verbatim>\<open>TypeError\<close> before any call on the repository, and the exception ends the
  run.
\<close>

theorem access_class_aborts_creation:
  "access (config access_job) = Some ''http://vocab.lib.umd.edu/access#Public''
   \<and> update_repo quiet access_job (example_row ''source.csv:2'' new_item) new_item []
     = (Inl (TypeError ''URIRef is not subscriptable''), new_item, [])
   \<and> fst (snd (run quiet (Loaded example_sheet) None None False None
              (example_state\<lparr>job := access_job\<rparr>)))
     = Inl (TypeError ''URIRef is not subscriptable'')"
proof -
  have "fst (snd (run quiet (Loaded example_sheet) None None False None
              (example_state\<lparr>job := access_job\<rparr>)))
     = Inl (TypeError ''URIRef is not subscriptable'')"
    by code_simp
  then show ?thesis
    by (simp add: update_repo_def create_resource_def tag_item_def job_access_def startswith_def
        access_job_def example_job_def example_config_def new_item_def)
qed

subsection \<open>The ledgers of a run\<close>

lemma ItemLog_init_fields:
  "ItemLog_init fs0 p fns kf hdr = Inr l \<Longrightarrow>
     filename l = p \<and> fieldnames l = fns \<and> keyfield l = kf \<and> write_header l = hdr"
  by (auto simp: ItemLog_init_def Let_def split: if_splits sum.splits)

lemma invalid_items_result:
  assumes "ledgers_ok st" "invalid_items st = (Inr l, st1)"
  shows "st1 = st\<lparr>invalid_items_attr := Some l\<rparr>
     \<and> fieldnames l = DROPPED_INVALID_FIELDNAMES \<and> keyfield l = ''id''"
proof (cases "invalid_items_attr st")
  case None
  with assms(2) show ?thesis
    by (auto simp: invalid_items_def split: option.splits sum.splits dest: ItemLog_init_fields)
next
  case (Some l0)
  with assms show ?thesis by (auto simp: invalid_items_def ledgers_ok_def)
qed

lemma failed_items_result:
  assumes "ledgers_ok st" "failed_items st = (Inr l, st1)"
  shows "st1 = st\<lparr>failed_items_attr := Some l\<rparr>
     \<and> fieldnames l = DROPPED_FAILED_FIELDNAMES \<and> keyfield l = ''id''"
proof (cases "failed_items_attr st")
  case None
  with assms(2) show ?thesis
    by (auto simp: failed_items_def split: option.splits sum.splits dest: ItemLog_init_fields)
next
  case (Some l0)
  with assms show ?thesis by (auto simp: failed_items_def ledgers_ok_def)
qed

lemma append_dropped:
  assumes "fieldnames l = DROPPED_INVALID_FIELDNAMES" "keyfield l = ''id''"
  shows "ItemLog_append l fs0 (dropped_row item lr ts reason)
     = (Inr (), l\<lparr>item_keys := insert (Some (dropped_id item lr)) (item_keys l)\<rparr>,
        write_line (filename l) (dropped_cells item lr ts reason) (ItemLog_writer l fs0))"
  using assms
  by (simp add: ItemLog_append_def dropped_row_def DROPPED_INVALID_FIELDNAMES_def Let_def
      DictWriter_cells_def dropped_cells_def dropped_id_def)

lemma write_line_last:
  "\<exists>lines. write_line p cells fs0 p = Some (lines @ [cells])"
  by (simp add: write_line_def)

lemma write_line_other: "q \<noteq> p \<Longrightarrow> write_line p cells fs0 q = fs0 q"
  by (simp add: write_line_def)

lemma ItemLog_writer_other: "q \<noteq> filename l \<Longrightarrow> ItemLog_writer l fs0 q = fs0 q"
  by (simp add: ItemLog_writer_def ItemLog_create_def)

lemma drop_invalid_effect:
  assumes "ledgers_ok st" "invalid_items st = (Inr l, st1)"
  shows "drop_invalid E item lr reason st
     = (Inr (), st\<lparr>clock_reads := Suc (clock_reads st),
          invalid_items_attr := Some (l\<lparr>item_keys := insert (Some (dropped_id item lr)) (item_keys l)\<rparr>),
          files := write_line (filename l)
                     (dropped_cells item lr (utcnow_iso E (clock_reads st)) reason)
                     (ItemLog_writer l (files st))\<rparr>)"
proof -
  from invalid_items_result [OF assms] have 1: "st1 = st\<lparr>invalid_items_attr := Some l\<rparr>"
    and 2: "fieldnames l = DROPPED_INVALID_FIELDNAMES" "keyfield l = ''id''" by auto
  show ?thesis
    by (simp add: drop_invalid_def assms(2) 1 datetimestamp_def Let_def append_dropped [OF 2])
qed

lemma drop_failed_effect:
  assumes "ledgers_ok st" "failed_items st = (Inr l, st1)"
  shows "drop_failed E item lr reason st
     = (Inr (), st\<lparr>clock_reads := Suc (clock_reads st),
          failed_items_attr := Some (l\<lparr>item_keys := insert (Some (dropped_id item lr)) (item_keys l)\<rparr>),
          files := write_line (filename l)
                     (dropped_cells item lr (utcnow_iso E (clock_reads st)) reason)
                     (ItemLog_writer l (files st))\<rparr>)"
proof -
  from failed_items_result [OF assms] have 1: "st1 = st\<lparr>failed_items_attr := Some l\<rparr>"
    and 2: "fieldnames l = DROPPED_INVALID_FIELDNAMES" "keyfield l = ''id''"
    by (auto simp: DROPPED_INVALID_FIELDNAMES_def DROPPED_FAILED_FIELDNAMES_def)
  show ?thesis
    by (simp add: drop_failed_def assms(2) 1 datetimestamp_def Let_def append_dropped [OF 2])
qed





lemma running_ledgers_ok: "ledgers_ok running_state"
  by (simp add: ledgers_ok_def running_state_def example_state_def)

lemma running_invalid_items:
  "invalid_items running_state
     = (Inr (dropped_log ''dropped-invalid.log.csv'' {}),
        running_state\<lparr>invalid_items_attr := Some (dropped_log ''dropped-invalid.log.csv'' {})\<rparr>)"
  by (simp add: invalid_items_def running_state_def example_state_def ItemLog_init_def
      ItemLog_exists_def DROPPED_INVALID_FIELDNAMES_def dropped_log_def)

lemma running_failed_items:
  "failed_items running_state
     = (Inr (dropped_log ''dropped-failed.log.csv'' {}),
        running_state\<lparr>failed_items_attr := Some (dropped_log ''dropped-failed.log.csv'' {})\<rparr>)"
  by (simp add: failed_items_def running_state_def example_state_def ItemLog_init_def
      ItemLog_exists_def DROPPED_FAILED_FIELDNAMES_def dropped_log_def)

lemma running_job: "job running_state = example_job"
  by (simp add: running_state_def example_state_def)

subsection \<open>Rows that name missing files\<close>

lemma missing_files_eq:
  "binaries_location (config j) = Some b \<Longrightarrow> missing_files E j names = Inr (missing E j b names)"
  by (induction names) (auto simp: job_source_def missing_def)

lemma validate_files_eq:
  "binaries_location (config j) = Some b \<Longrightarrow>
     validate_files E j names =
       Inr (if missing E j b names = [] then ValidationSuccess None ''All files present''
            else ValidationFailure None (missing_message (missing E j b names)))"
  by (simp add: validate_files_def missing_files_eq missing_message_def)

lemma validate_item_eq:
  assumes "binaries_location (config j) = Some b" "validate it = Inr res"
  shows "validate_item E j row it =
     Inr (AList.update ''ITEM_FILES''
            (if missing E j b (item_filenames row) = [] then ValidationSuccess None ''All files present''
             else ValidationFailure None (missing_message (missing E j b (item_filenames row))))
          (AList.update ''FILES''
            (if missing E j b (filenames row) = [] then ValidationSuccess None ''All files present''
             else ValidationFailure None (missing_message (missing E j b (filenames row))))
            res))"
  using assms by (simp add: validate_item_def validate_files_eq)

lemma failing_entry_not_ok:
  assumes "map_of results k = Some (ValidationFailure p m)"
  shows "\<not> ok results"
proof -
  from assms have "(k, ValidationFailure p m) \<in> set results" by (rule map_of_SomeD)
  then have "(k, ValidationFailure p m) \<in> set (failures results)" by (simp add: failures_def)
  then show ?thesis by (auto simp: ok_def)
qed

text \<open>
  C5. A row is processed by a run whose invalid ledger opens, for a job with a
  binaries location, and the validation of its item returns. If one of its file names
  (or item-level file names) has no existing source under the binaries location, the
  validation holds a failing entry \<^verbatim>\<open>FILES\<close> (or \<^verbatim>\<open>ITEM_FILES\<close>) whose message counts
  and lists exactly the missing names, and is not ok; the loop body counts the row as
  invalid, appends it to the invalid ledger with the failures joined as the reason,
  yields nothing and raises nothing; the repository and the completed ledger are as
  before: the commit is not reached.
\<close>

theorem missing_file_row_is_dropped:
  assumes led: "ledgers_ok st" "invalid_items st = (Inr l, st1)"
    and loc: "binaries_location (config (job st)) = Some b"
    and val: "validate (get_object row (\<not> vo)) = Inr res"
    and mis: "missing E (job st) b (filenames row) \<noteq> []
              \<or> missing E (job st) b (item_filenames row) \<noteq> []"
  shows "\<exists>results.
     validate_item E (job st) row (get_object row (\<not> vo)) = Inr results
     \<and> (missing E (job st) b (filenames row) \<noteq> [] \<longrightarrow>
          map_of results ''FILES''
            = Some (ValidationFailure None (missing_message (missing E (job st) b (filenames row)))))
     \<and> (missing E (job st) b (item_filenames row) \<noteq> [] \<longrightarrow>
          map_of results ''ITEM_FILES''
            = Some (ValidationFailure None
                      (missing_message (missing E (job st) b (item_filenames row)))))
     \<and> \<not> ok results
     \<and> process_row E vo start (WellFormed row) c st
         = ([], None,
            Counter_add (Counter_add c ''files'' (int (length (filenames row)))) ''invalid_items'' 1,
            st\<lparr>clock_reads := Suc (clock_reads st),
                invalid_items_attr := Some (l\<lparr>item_keys :=
                  insert (Some (dropped_id (Some (get_object row (\<not> vo))) (line_reference row)))
                    (item_keys l)\<rparr>),
                files := write_line (filename l)
                  (dropped_cells (Some (get_object row (\<not> vo))) (line_reference row)
                     (utcnow_iso E (clock_reads st)) (failure_reasons E results))
                  (ItemLog_writer l (files st))\<rparr>)"
proof -
  let ?it = "get_object row (\<not> vo)"
  let ?results = "AList.update ''ITEM_FILES''
            (if missing E (job st) b (item_filenames row) = [] then ValidationSuccess None ''All files present''
             else ValidationFailure None (missing_message (missing E (job st) b (item_filenames row))))
          (AList.update ''FILES''
            (if missing E (job st) b (filenames row) = [] then ValidationSuccess None ''All files present''
             else ValidationFailure None (missing_message (missing E (job st) b (filenames row))))
            res)"
  have v: "validate_item E (job st) row ?it = Inr ?results" by (rule validate_item_eq [OF loc val])
  have f: "missing E (job st) b (filenames row) \<noteq> [] \<longrightarrow>
          map_of ?results ''FILES''
            = Some (ValidationFailure None (missing_message (missing E (job st) b (filenames row))))"
    by (simp add: update_conv')
  have i: "missing E (job st) b (item_filenames row) \<noteq> [] \<longrightarrow>
          map_of ?results ''ITEM_FILES''
            = Some (ValidationFailure None (missing_message (missing E (job st) b (item_filenames row))))"
    by (simp add: update_conv')
  from mis f i have n: "\<not> ok ?results" using failing_entry_not_ok by blast
  have p: "process_row E vo start (WellFormed row) c st
         = ([], None,
            Counter_add (Counter_add c ''files'' (int (length (filenames row)))) ''invalid_items'' 1,
            st\<lparr>clock_reads := Suc (clock_reads st),
                invalid_items_attr := Some (l\<lparr>item_keys :=
                  insert (Some (dropped_id (Some ?it) (line_reference row))) (item_keys l)\<rparr>),
                files := write_line (filename l)
                  (dropped_cells (Some ?it) (line_reference row)
                     (utcnow_iso E (clock_reads st)) (failure_reasons E ?results))
                  (ItemLog_writer l (files st))\<rparr>)"
    using n
    by (simp add: process_row_def v Let_def drop_invalid_effect [OF led] failure_reasons_def
        del: AList.update.simps)
  from v f i n p show ?thesis by blast
qed





text \<open>The witness: the row of the example sheet that names \<^verbatim>\<open>missing.tif\<close>.\<close>

lemma missing_row_validation:
  "validate_item quiet example_job missing_row orphan_item
     = Inr [(''FILES'', ValidationFailure None ''Missing 1 files: missing.tif''),
            (''ITEM_FILES'', ValidationSuccess None ''All files present'')]"
  by code_simp

lemma missing_row_missing: "missing quiet example_job ''/data'' (filenames missing_row) = [''missing.tif'']"
  by code_simp

theorem missing_file_row_is_dropped_witness:
  "validate_item quiet example_job missing_row orphan_item
     = Inr [(''FILES'', ValidationFailure None ''Missing 1 files: missing.tif''),
            (''ITEM_FILES'', ValidationSuccess None ''All files present'')]
   \<and> process_row quiet False 0 (WellFormed missing_row) [] running_state
     = ([], None, [(''files'', 1), (''invalid_items'', 1)],
        running_state\<lparr>clock_reads := 3,
          invalid_items_attr := Some (dropped_log ''dropped-invalid.log.csv'' {Some ''id-4''}),
          files := [[''jobs'', ''job1'', ''20240101000000'', ''dropped-invalid.log.csv''] \<mapsto>
            [[''id'', ''timestamp'', ''title'', ''uri'', ''reason''],
             [''id-4'', ''2024-01-01T00:00:00'', ''Fourth'', ''urn:uuid:0004'',
              ''Validation failures: FILES Missing 1 files: missing.tif'']]]\<rparr>)"
proof -
  have loc: "binaries_location (config (job running_state)) = Some ''/data''"
    by (simp add: running_job example_job_def example_config_def)
  have g: "get_object missing_row x = orphan_item" for x by (simp add: missing_row_def)
  have val: "validate (get_object missing_row (\<not> False)) = Inr []"
    by (simp add: missing_row_def orphan_item_def)
  have mis: "missing quiet (job running_state) ''/data'' (filenames missing_row) \<noteq> []
      \<or> missing quiet (job running_state) ''/data'' (item_filenames missing_row) \<noteq> []"
    by (simp add: running_job missing_row_missing)
  from missing_file_row_is_dropped [OF running_ledgers_ok running_invalid_items loc val mis,
      of 0 "[]"]
  obtain results where v: "validate_item quiet (job running_state) missing_row
         (get_object missing_row (\<not> False)) = Inr results"
    and p: "process_row quiet False 0 (WellFormed missing_row) [] running_state
         = ([], None,
            Counter_add (Counter_add [] ''files'' (int (length (filenames missing_row))))
              ''invalid_items'' 1,
            running_state\<lparr>clock_reads := Suc (clock_reads running_state),
                invalid_items_attr := Some ((dropped_log ''dropped-invalid.log.csv'' {})\<lparr>item_keys :=
                  insert (Some (dropped_id (Some (get_object missing_row (\<not> False)))
                     (line_reference missing_row)))
                    (item_keys (dropped_log ''dropped-invalid.log.csv'' {}))\<rparr>),
                files := write_line (filename (dropped_log ''dropped-invalid.log.csv'' {}))
                  (dropped_cells (Some (get_object missing_row (\<not> False)))
                     (line_reference missing_row)
                     (utcnow_iso quiet (clock_reads running_state)) (failure_reasons quiet results))
                  (ItemLog_writer (dropped_log ''dropped-invalid.log.csv'' {})
                     (files running_state))\<rparr>)"
    by blast
  from v have r: "results = [(''FILES'', ValidationFailure None ''Missing 1 files: missing.tif''),
            (''ITEM_FILES'', ValidationSuccess None ''All files present'')]"
    by (simp add: running_job g missing_row_validation)
  have f: "failure_reasons quiet results
      = ''Validation failures: FILES Missing 1 files: missing.tif''"
    unfolding r by (simp add: failure_reasons_def failures_def quiet_def)
  have c: "Counter_add (Counter_add [] ''files'' (int (length (filenames missing_row))))
              ''invalid_items'' 1 = [(''files'', 1), (''invalid_items'', 1)]"
    by (simp add: Counter_add_def Counter_get_def missing_row_def)
  have w: "write_line (filename (dropped_log ''dropped-invalid.log.csv'' {}))
                  (dropped_cells (Some (get_object missing_row (\<not> False)))
                     (line_reference missing_row)
                     (utcnow_iso quiet (clock_reads running_state)) (failure_reasons quiet results))
                  (ItemLog_writer (dropped_log ''dropped-invalid.log.csv'' {})
                     (files running_state))
      = [[''jobs'', ''job1'', ''20240101000000'', ''dropped-invalid.log.csv''] \<mapsto>
            [[''id'', ''timestamp'', ''title'', ''uri'', ''reason''],
             [''id-4'', ''2024-01-01T00:00:00'', ''Fourth'', ''urn:uuid:0004'',
              ''Validation failures: FILES Missing 1 files: missing.tif'']]]"
    unfolding f
    by (simp add: write_line_def ItemLog_writer_def ItemLog_exists_def ItemLog_create_def
        dropped_log_def dropped_cells_def dropped_id_def missing_row_def orphan_item_def
        quiet_def running_state_def example_state_def)
  have k: "(dropped_log ''dropped-invalid.log.csv'' {})\<lparr>item_keys :=
                  insert (Some (dropped_id (Some (get_object missing_row (\<not> False)))
                     (line_reference missing_row)))
                    (item_keys (dropped_log ''dropped-invalid.log.csv'' {}))\<rparr>
      = dropped_log ''dropped-invalid.log.csv'' {Some ''id-4''}"
    by (simp add: dropped_log_def dropped_id_def missing_row_def orphan_item_def)
  have n: "Suc (clock_reads running_state) = 3"
    by (simp add: running_state_def example_state_def)
  from p show ?thesis unfolding c w k n using missing_row_validation by simp
qed

subsection \<open>Rows whose commit raises a job error\<close>

lemma failed_items_repo_log:
  "failed_items st = (r, st1) \<Longrightarrow> failed_items (st\<lparr>repo_log := cs\<rparr>) = (r, st1\<lparr>repo_log := cs\<rparr>)"
  by (auto simp: failed_items_def split: option.splits sum.splits)

lemma ledgers_ok_repo_log: "ledgers_ok (st\<lparr>repo_log := cs\<rparr>) = ledgers_ok st"
  by (simp add: ledgers_ok_def)

text \<open>
  C4. A valid row is committed by a run whose failed ledger opens, and \<^verbatim>\<open>update_repo\<close>
  raises a \<^verbatim>\<open>JobError\<close>. Then the loop body adds one to the counter
  \<^verbatim>\<open>items_with_errors\<close>, appends the item to the failed ledger with \<^verbatim>\<open>str\<close> of the error
  as the reason, leaves the job with its completed ledger as it was (no file but the
  failed ledger's is written), yields one snapshot and raises nothing; the loop goes on
  with the rows that remain.
\<close>

theorem job_error_is_logged_and_run_continues:
  assumes led: "ledgers_ok st" "failed_items st = (Inr l, st1)"
    and val: "validate_item E (job st) row (get_object row True) = Inr results" "ok results"
    and upd: "update_repo E (job st) row (get_object row True) (repo_log st)
                = (Inl (JobError args), it', cs')"
  shows "(let c' = Counter_add (Counter_add (Counter_add c ''files'' (int (length (filenames row))))
                     ''valid_items'' 1) ''items_with_errors'' 1;
              st' = st\<lparr>repo_log := cs', clock_reads := Suc (Suc (clock_reads st)),
                      failed_items_attr := Some (l\<lparr>item_keys :=
                        insert (Some (dropped_id (Some it') (line_reference row))) (item_keys l)\<rparr>),
                      files := write_line (filename l)
                        (dropped_cells (Some it') (line_reference row)
                           (utcnow_iso E (clock_reads st)) (str_JobError E args))
                        (ItemLog_writer l (files st))\<rparr>;
              s = \<lparr>time_started = start, time_now = now_timestamp E (Suc (clock_reads st)),
                    time_elapsed = now_timestamp E (Suc (clock_reads st)) - start,
                    snapshot_count = c'\<rparr>
          in process_row E False start (WellFormed row) c st = ([s], None, c', st')
             \<and> Counter_get c' ''items_with_errors'' = Counter_get c ''items_with_errors'' + 1
             \<and> job st' = job st
             \<and> (\<forall>p. p \<noteq> filename l \<longrightarrow> files st' p = files st p)
             \<and> (\<exists>lines. files st' (filename l)
                   = Some (lines @ [dropped_cells (Some it') (line_reference row)
                                      (utcnow_iso E (clock_reads st)) (str_JobError E args)]))
             \<and> (\<not> rows_skips (completed_log (job st)) (WellFormed row) \<longrightarrow>
                  run_rows E False start (WellFormed row # xs) c st
                    = (case run_rows E False start xs c' st' of
                         (snaps, r, c2, st2) \<Rightarrow> (s # snaps, r, c2, st2))))"
proof -
  let ?c2 = "Counter_add (Counter_add c ''files'' (int (length (filenames row)))) ''valid_items'' 1"
  let ?c' = "Counter_add ?c2 ''items_with_errors'' 1"
  let ?cells = "dropped_cells (Some it') (line_reference row)
                           (utcnow_iso E (clock_reads st)) (str_JobError E args)"
  let ?st' = "st\<lparr>repo_log := cs', clock_reads := Suc (Suc (clock_reads st)),
                      failed_items_attr := Some (l\<lparr>item_keys :=
                        insert (Some (dropped_id (Some it') (line_reference row))) (item_keys l)\<rparr>),
                      files := write_line (filename l) ?cells (ItemLog_writer l (files st))\<rparr>"
  let ?s = "\<lparr>time_started = start, time_now = now_timestamp E (Suc (clock_reads st)),
                    time_elapsed = now_timestamp E (Suc (clock_reads st)) - start,
                    snapshot_count = ?c'\<rparr>"
  have i: "import_item E row (get_object row True) ?c2 st
             = (Inl (JobError args), it', ?c2, st\<lparr>repo_log := cs'\<rparr>)"
    by (simp add: import_item_def upd)
  have led': "ledgers_ok (st\<lparr>repo_log := cs'\<rparr>)" using led(1) by (simp add: ledgers_ok_repo_log)
  note d = drop_failed_effect [OF led' failed_items_repo_log [OF led(2)], of E "Some it'"
      "line_reference row" "str_JobError E args"]
  have p: "process_row E False start (WellFormed row) c st = ([?s], None, ?c', ?st')"
    by (simp add: process_row_def val Let_def i d yield_status_def)
  have 1: "Counter_get ?c' ''items_with_errors'' = Counter_get c ''items_with_errors'' + 1"
    by (simp add: Counter_get_def Counter_add_def update_conv')
  have 2: "\<forall>p. p \<noteq> filename l \<longrightarrow> files ?st' p = files st p"
    by (simp add: write_line_other ItemLog_writer_other)
  have 3: "\<exists>lines. files ?st' (filename l) = Some (lines @ [?cells])"
    using write_line_last [of "filename l" ?cells "ItemLog_writer l (files st)"] by simp
  have 4: "run_rows E False start (WellFormed row # xs) c st
             = (case run_rows E False start xs ?c' ?st' of
                  (snaps, r, c2, st2) \<Rightarrow> (?s # snaps, r, c2, st2))"
    if "\<not> rows_skips (completed_log (job st)) (WellFormed row)"
    using that by (simp add: p split: prod.splits)
  from p 1 2 3 4 show ?thesis unfolding Let_def by simp
qed





text \<open>The witness: the changed item, against a repository whose reads fail.\<close>

lemma changed_row_validation:
  "validate_item read_fails example_job (example_row ''source.csv:3'' changed_item) changed_item
     = Inr [(''FILES'', ValidationSuccess None ''All files present''),
            (''ITEM_FILES'', ValidationSuccess None ''All files present'')]"
  by code_simp

lemma changed_row_update:
  "update_repo read_fails example_job (example_row ''source.csv:3'' changed_item) changed_item []
     = (Inl (JobError [''Updating item failed: 404 Not Found'']), changed_item,
        [Read ''http://localhost/rest/objects/2''])"
  by (simp add: update_repo_def startswith_def read_fails_def quiet_def changed_item_def)

theorem job_error_is_logged_and_run_continues_witness:
  "update_repo read_fails example_job (example_row ''source.csv:3'' changed_item) changed_item []
     = (Inl (JobError [''Updating item failed: 404 Not Found'']), changed_item,
        [Read ''http://localhost/rest/objects/2''])
   \<and> process_row read_fails False 0 (WellFormed (example_row ''source.csv:3'' changed_item)) []
       running_state
     = ([\<lparr>time_started = 0, time_now = 3, time_elapsed = 3,
           snapshot_count = [(''files'', 0), (''valid_items'', 1), (''items_with_errors'', 1)]\<rparr>],
        None, [(''files'', 0), (''valid_items'', 1), (''items_with_errors'', 1)],
        running_state\<lparr>repo_log := [Read ''http://localhost/rest/objects/2''], clock_reads := 4,
          failed_items_attr := Some (dropped_log ''dropped-failed.log.csv'' {Some ''id-2''}),
          files := [[''jobs'', ''job1'', ''20240101000000'', ''dropped-failed.log.csv''] \<mapsto>
            [[''id'', ''timestamp'', ''title'', ''uri'', ''reason''],
             [''id-2'', ''2024-01-01T00:00:00'', ''Second'', ''http://localhost/rest/objects/2'',
              ''Updating item failed: 404 Not Found'']]]\<rparr>)
   \<and> completed_log (job running_state) = example_log"
proof -
  let ?row = "example_row ''source.csv:3'' changed_item"
  have g: "get_object ?row x = changed_item" for x by (simp add: example_row_def)
  have val: "validate_item read_fails (job running_state) ?row (get_object ?row True)
      = Inr [(''FILES'', ValidationSuccess None ''All files present''),
            (''ITEM_FILES'', ValidationSuccess None ''All files present'')]"
    by (simp add: running_job g changed_row_validation)
  have okr: "ok [(''FILES'', ValidationSuccess None ''All files present''),
            (''ITEM_FILES'', ValidationSuccess None ''All files present'')]"
    by (simp add: ok_def failures_def)
  have upd: "update_repo read_fails (job running_state) ?row (get_object ?row True)
      (repo_log running_state)
      = (Inl (JobError [''Updating item failed: 404 Not Found'']), changed_item,
        [Read ''http://localhost/rest/objects/2''])"
    using changed_row_update by (simp add: running_job g running_state_def example_state_def)
  note t = job_error_is_logged_and_run_continues [OF running_ledgers_ok running_failed_items
      val okr upd, where start = 0 and c = "[]" and xs = "[]", unfolded Let_def]
  have c: "Counter_add (Counter_add (Counter_add [] ''files'' (int (length (filenames ?row))))
                     ''valid_items'' 1) ''items_with_errors'' 1
      = [(''files'', 0), (''valid_items'', 1), (''items_with_errors'', 1)]"
    by (simp add: Counter_add_def Counter_get_def example_row_def)
  have n: "now_timestamp read_fails (Suc (clock_reads running_state)) = 3"
    "Suc (Suc (clock_reads running_state)) = 4"
    by (simp_all add: read_fails_def quiet_def running_state_def example_state_def)
  have w: "write_line (filename (dropped_log ''dropped-failed.log.csv'' {}))
             (dropped_cells (Some changed_item) (line_reference ?row)
                (utcnow_iso read_fails (clock_reads running_state))
                (str_JobError read_fails [''Updating item failed: 404 Not Found'']))
             (ItemLog_writer (dropped_log ''dropped-failed.log.csv'' {}) (files running_state))
      = [[''jobs'', ''job1'', ''20240101000000'', ''dropped-failed.log.csv''] \<mapsto>
            [[''id'', ''timestamp'', ''title'', ''uri'', ''reason''],
             [''id-2'', ''2024-01-01T00:00:00'', ''Second'', ''http://localhost/rest/objects/2'',
              ''Updating item failed: 404 Not Found'']]]"
    by (simp add: write_line_def ItemLog_writer_def ItemLog_exists_def ItemLog_create_def
        dropped_log_def dropped_cells_def dropped_id_def example_row_def changed_item_def
        read_fails_def quiet_def running_state_def example_state_def)
  have k: "(dropped_log ''dropped-failed.log.csv'' {})\<lparr>item_keys :=
              insert (Some (dropped_id (Some changed_item) (line_reference ?row)))
                (item_keys (dropped_log ''dropped-failed.log.csv'' {}))\<rparr>
      = dropped_log ''dropped-failed.log.csv'' {Some ''id-2''}"
    by (simp add: dropped_log_def dropped_id_def changed_item_def)
  have j: "completed_log (job running_state) = example_log"
    by (simp add: running_job example_job_def)
  from t have "process_row read_fails False 0 (WellFormed ?row) [] running_state
     = ([\<lparr>time_started = 0, time_now = 3, time_elapsed = 3,
           snapshot_count = [(''files'', 0), (''valid_items'', 1), (''items_with_errors'', 1)]\<rparr>],
        None, [(''files'', 0), (''valid_items'', 1), (''items_with_errors'', 1)],
        running_state\<lparr>repo_log := [Read ''http://localhost/rest/objects/2''], clock_reads := 4,
          failed_items_attr := Some (dropped_log ''dropped-failed.log.csv'' {Some ''id-2''}),
          files := [[''jobs'', ''job1'', ''20240101000000'', ''dropped-failed.log.csv''] \<mapsto>
            [[''id'', ''timestamp'', ''title'', ''uri'', ''reason''],
             [''id-2'', ''2024-01-01T00:00:00'', ''Second'', ''http://localhost/rest/objects/2'',
              ''Updating item failed: 404 Not Found'']]]\<rparr>)"
    unfolding c n w k by simp
  with changed_row_update j show ?thesis by simp
qed

subsection \<open>The ledgers stay the run's own\<close>

text \<open>
  The condition \<open>ledgers_ok\<close> holds of a run that has opened no ledger yet, and the
  start of the run and every row of the loop keep it.
\<close>

lemma fresh_ledgers_ok:
  "invalid_items_attr st = None \<Longrightarrow> failed_items_attr st = None \<Longrightarrow> ledgers_ok st"
  by (simp add: ledgers_ok_def)

lemma append_fields:
  "ItemLog_append l fs0 row = (r, l', fs') \<Longrightarrow> fieldnames l' = fieldnames l \<and> keyfield l' = keyfield l"
  by (auto simp: ItemLog_append_def Let_def split: if_splits option.splits)

lemma drop_invalid_ledgers_ok:
  assumes "ledgers_ok st" "drop_invalid E it lr reason st = (r, st')"
  shows "ledgers_ok st'"
proof (cases "invalid_items st")
  case (Pair r1 st1)
  show ?thesis
  proof (cases r1)
    case (Inl e)
    with assms Pair have "st' = st1" by (simp add: drop_invalid_def)
    moreover from Pair Inl have "st1 = st"
      by (auto simp: invalid_items_def split: option.splits sum.splits)
    ultimately show ?thesis using assms(1) by simp
  next
    case (Inr l)
    from invalid_items_result [OF assms(1) Pair [unfolded Inr]]
    have 1: "st1 = st\<lparr>invalid_items_attr := Some l\<rparr>"
      and 2: "fieldnames l = DROPPED_INVALID_FIELDNAMES" "keyfield l = ''id''" by auto
    obtain r2 l2 fs2 where a: "ItemLog_append l (files st) (dropped_row it lr (utcnow_iso E (clock_reads st)) reason) = (r2, l2, fs2)"
      by (cases "ItemLog_append l (files st) (dropped_row it lr (utcnow_iso E (clock_reads st)) reason)")
    from assms(2) Pair Inr 1 a have "st' = st\<lparr>clock_reads := Suc (clock_reads st), invalid_items_attr := Some l2, files := fs2\<rparr>"
      by (simp add: drop_invalid_def datetimestamp_def Let_def)
    with append_fields [OF a] 2 assms(1) show ?thesis by (simp add: ledgers_ok_def)
  qed
qed

lemma drop_failed_ledgers_ok:
  assumes "ledgers_ok st" "drop_failed E it lr reason st = (r, st')"
  shows "ledgers_ok st'"
proof (cases "failed_items st")
  case (Pair r1 st1)
  show ?thesis
  proof (cases r1)
    case (Inl e)
    with assms Pair have "st' = st1" by (simp add: drop_failed_def)
    moreover from Pair Inl have "st1 = st"
      by (auto simp: failed_items_def split: option.splits sum.splits)
    ultimately show ?thesis using assms(1) by simp
  next
    case (Inr l)
    from failed_items_result [OF assms(1) Pair [unfolded Inr]]
    have 1: "st1 = st\<lparr>failed_items_attr := Some l\<rparr>"
      and 2: "fieldnames l = DROPPED_FAILED_FIELDNAMES" "keyfield l = ''id''" by auto
    obtain r2 l2 fs2 where a: "ItemLog_append l (files st) (dropped_row it lr (utcnow_iso E (clock_reads st)) reason) = (r2, l2, fs2)"
      by (cases "ItemLog_append l (files st) (dropped_row it lr (utcnow_iso E (clock_reads st)) reason)")
    from assms(2) Pair Inr 1 a have "st' = st\<lparr>clock_reads := Suc (clock_reads st), failed_items_attr := Some l2, files := fs2\<rparr>"
      by (simp add: drop_failed_def datetimestamp_def Let_def)
    with append_fields [OF a] 2 assms(1) show ?thesis by (simp add: ledgers_ok_def)
  qed
qed

lemma complete_ledgers_ok: "complete E it lr s st = (r, st') \<Longrightarrow> ledgers_ok st' = ledgers_ok st"
  by (auto simp: complete_def datetimestamp_def Let_def ledgers_ok_def split: prod.splits)

lemma import_item_ledgers_ok:
  "import_item E row it c st = (r, it', c', st') \<Longrightarrow> ledgers_ok st' = ledgers_ok st"
  by (auto simp: import_item_def ledgers_ok_repo_log split: prod.splits sum.splits
      dest!: complete_ledgers_ok)

lemma yield_status_ledgers_ok:
  "yield_status E start c st = (s, st') \<Longrightarrow> ledgers_ok st' = ledgers_ok st"
  by (auto simp: yield_status_def Let_def ledgers_ok_def)

lemma after_import_ledgers_ok:
  assumes "ledgers_ok st" "after_import E start row (r, it, c, st) = (snaps, e, c', st')"
  shows "ledgers_ok st'"
proof (cases r)
  case (Inr u)
  with assms show ?thesis by (auto split: prod.splits dest: yield_status_ledgers_ok)
next
  case (Inl err)
  show ?thesis
  proof (cases "\<exists>args. err = JobError args")
    case False
    with assms Inl show ?thesis by (cases err) auto
  next
    case True
    then obtain args where err: "err = JobError args" by blast
    obtain r1 st1 where d: "drop_failed E (Some it) (line_reference row) (str_JobError E args) st
        = (r1, st1)"
      by (cases "drop_failed E (Some it) (line_reference row) (str_JobError E args) st")
    note o = drop_failed_ledgers_ok [OF assms(1) d]
    from assms(2) Inl err d o show ?thesis
      by (cases r1) (auto simp: Let_def split: prod.splits dest: yield_status_ledgers_ok)
  qed
qed

lemma process_row_ledgers_ok:
  assumes "ledgers_ok st" "process_row E vo start x c st = (snaps, e, c', st')"
  shows "ledgers_ok st'"
proof (cases x)
  case (InvalidRow lr reason)
  with assms show ?thesis
    by (auto simp: process_row_def split: prod.splits sum.splits dest: drop_invalid_ledgers_ok)
next
  case (WellFormed row)
  let ?it = "get_object row (\<not> vo)"
  show ?thesis
  proof (cases "validate_item E (job st) row ?it")
    case (Inl err)
    with assms WellFormed show ?thesis by (auto simp: process_row_def Let_def)
  next
    case (Inr results)
    show ?thesis
    proof (cases "ok results \<and> \<not> vo")
      case False
      with assms WellFormed Inr show ?thesis
        by (auto simp: process_row_def Let_def split: prod.splits sum.splits if_splits
            dest: drop_invalid_ledgers_ok)
    next
      case True
      let ?c2 = "Counter_add (Counter_add c ''files'' (int (length (filenames row)))) ''valid_items'' 1"
      obtain r it1 c3 st3 where i: "import_item E row ?it ?c2 st = (r, it1, c3, st3)"
        by (cases "import_item E row ?it ?c2 st")
      from assms WellFormed Inr True i
      have a: "after_import E start row (r, it1, c3, st3) = (snaps, e, c', st')"
        by (simp add: process_row_def Let_def)
      from import_item_ledgers_ok [OF i] assms(1) after_import_ledgers_ok [OF _ a]
      show ?thesis by simp
    qed
  qed
qed

lemma run_rows_ledgers_ok:
  "ledgers_ok st \<Longrightarrow> run_rows E vo start xs c st = (snaps, e, c', st') \<Longrightarrow> ledgers_ok st'"
proof (induction xs arbitrary: c st snaps e c' st')
  case Nil
  then show ?case by simp
next
  case (Cons x xs)
  show ?case
  proof (cases "rows_skips (completed_log (job st)) x")
    case True
    with Cons show ?thesis by simp
  next
    case False
    obtain s1 e1 c1 st1 where p: "process_row E vo start x c st = (s1, e1, c1, st1)"
      by (cases "process_row E vo start x c st")
    note o = process_row_ledgers_ok [OF Cons.prems(1) p]
    show ?thesis
    proof (cases e1)
      case (Some err)
      with Cons.prems False p o show ?thesis by auto
    next
      case None
      obtain s2 e2 c2 st2 where r: "run_rows E vo start xs c1 st1 = (s2, e2, c2, st2)"
        by (cases "run_rows E vo start xs c1 st1")
      from Cons.prems False p None r have "st' = st2" by auto
      with Cons.IH [OF o r] show ?thesis by simp
    qed
  qed
qed

lemma start_run_ledgers_ok:
  "start_run E f st = (start, st4) \<Longrightarrow> ledgers_ok st4 = ledgers_ok st"
  by (cases f) (auto simp: start_run_def datetimestamp_def Let_def ledgers_ok_def)

subsection \<open>The counters of a run\<close>

lemma Counter_get_add:
  "Counter_get (Counter_add c k n) k' = (if k' = k then Counter_get c k + n else Counter_get c k')"
  by (simp add: Counter_get_def Counter_add_def update_conv')

lemma Counter_get_add_other:
  "k \<notin> touched \<Longrightarrow> k' \<in> touched \<Longrightarrow> Counter_get (Counter_add c k' n) k = Counter_get c k"
  by (auto simp: Counter_get_add)

lemma count_status_other: "k \<notin> touched \<Longrightarrow> Counter_get (count_status c s) k = Counter_get c k"
  by (cases s) (simp_all add: Counter_get_add_other touched_def)

lemma import_item_other:
  "k \<notin> touched \<Longrightarrow> import_item E row it c st = (r, it', c', st') \<Longrightarrow>
     Counter_get c' k = Counter_get c k"
  by (auto simp: import_item_def count_status_other split: prod.splits sum.splits)

lemma after_import_other:
  "k \<notin> touched \<Longrightarrow> after_import E start row (r, it, c, st) = (snaps, e, c', st') \<Longrightarrow>
     Counter_get c' k = Counter_get c k
     \<and> (\<forall>s \<in> set snaps. Counter_get (snapshot_count s) k = Counter_get c k)"
  by (cases "(E, start, row, (r, it, c, st))" rule: after_import.cases)
     (auto simp: Counter_get_add_other touched_def yield_status_def Let_def split: prod.splits sum.splits)

lemma process_row_other:
  assumes k: "k \<notin> touched" and "process_row E vo start x c st = (snaps, e, c', st')"
  shows "Counter_get c' k = Counter_get c k
     \<and> (\<forall>s \<in> set snaps. Counter_get (snapshot_count s) k = Counter_get c k)"
proof (cases x)
  case (InvalidRow lr reason)
  with assms show ?thesis by (auto simp: process_row_def split: prod.splits sum.splits)
next
  case (WellFormed row)
  let ?it = "get_object row (\<not> vo)"
  let ?c1 = "Counter_add c ''files'' (int (length (filenames row)))"
  have c1: "Counter_get ?c1 k = Counter_get c k" using k by (simp add: Counter_get_add_other touched_def)
  show ?thesis
  proof (cases "validate_item E (job st) row ?it")
    case (Inl err)
    with assms WellFormed c1 show ?thesis by (auto simp: process_row_def Let_def)
  next
    case (Inr results)
    show ?thesis
    proof (cases "ok results")
      case False
      have "Counter_get (Counter_add ?c1 ''invalid_items'' 1) k = Counter_get c k"
        using k c1 by (simp add: Counter_get_add_other touched_def)
      with assms WellFormed Inr False show ?thesis
        by (auto simp: process_row_def Let_def split: prod.splits sum.splits)
    next
      case True
      let ?c2 = "Counter_add ?c1 ''valid_items'' 1"
      have c2: "Counter_get ?c2 k = Counter_get c k"
        using k c1 by (simp add: Counter_get_add_other touched_def)
      show ?thesis
      proof (cases vo)
        case True
        with assms WellFormed Inr \<open>ok results\<close> c2 show ?thesis
          by (auto simp: process_row_def Let_def)
      next
        case False
        obtain r it1 c3 st3 where i: "import_item E row ?it ?c2 st = (r, it1, c3, st3)"
          by (cases "import_item E row ?it ?c2 st")
        from assms WellFormed Inr True False i
        have a: "after_import E start row (r, it1, c3, st3) = (snaps, e, c', st')"
          by (simp add: process_row_def Let_def)
        from import_item_other [OF k i] after_import_other [OF k a] c2 show ?thesis by simp
      qed
    qed
  qed
qed

lemma run_rows_other:
  "k \<notin> touched \<Longrightarrow> run_rows E vo start xs c st = (snaps, e, c', st') \<Longrightarrow>
     Counter_get c' k = Counter_get c k
     \<and> (\<forall>s \<in> set snaps. Counter_get (snapshot_count s) k = Counter_get c k)"
proof (induction xs arbitrary: c st snaps e c' st')
  case Nil
  then show ?case by simp
next
  case (Cons x xs)
  show ?case
  proof (cases "rows_skips (completed_log (job st)) x")
    case True
    with Cons show ?thesis by simp
  next
    case False
    obtain s1 e1 c1 st1 where p: "process_row E vo start x c st = (s1, e1, c1, st1)"
      by (cases "process_row E vo start x c st")
    note p1 = process_row_other [OF Cons.prems(1) p]
    show ?thesis
    proof (cases e1)
      case (Some err)
      with Cons.prems False p p1 show ?thesis by auto
    next
      case None
      obtain s2 e2 c2 st2 where r: "run_rows E vo start xs c1 st1 = (s2, e2, c2, st2)"
        by (cases "run_rows E vo start xs c1 st1")
      from Cons.prems False p None r have "snaps = s1 @ s2" "c' = c2" by auto
      with Cons.IH [OF Cons.prems(1) r] p1 show ?thesis by auto
    qed
  qed
qed

lemma start_run_job: "start_run E f st = (start, st4) \<Longrightarrow> job st4 = job st"
  by (cases f) (auto simp: start_run_def datetimestamp_def Let_def)

lemma run_loop:
  assumes "run E spreadsheet limit percentage vo import_file st = (snaps, r, st')"
    and "dir st = None" "spreadsheet = Loaded m"
    and "\<not> (has_binaries m \<and> binaries_location (config (job st)) = None)"
    and "start_run E import_file st = (start, st4)"
  shows "\<exists>e c. run_rows E vo start (selected m limit percentage) (initial_count m st4) st4
                 = (snaps, e, c, st')
     \<and> r = (case e of Some err \<Rightarrow> Inl err
             | None \<Rightarrow> Inr \<lparr>result_type = classify vo c st',
                  validation = validation_reports (job st'), result_count = c\<rparr>)"
proof -
  obtain s1 e1 c1 st5 where rr: "run_rows E vo start (selected m limit percentage) (initial_count m st4) st4
      = (s1, e1, c1, st5)"
    by (cases "run_rows E vo start (selected m limit percentage) (initial_count m st4) st4")
  from assms start_run_job [OF assms(5)] rr show ?thesis
    by (cases e1) (auto simp: run_def)
qed

lemma example_run_result: "fst (snd example_run) = Inr example_result"
  by code_simp

lemma example_run_snapshots: "length (fst example_run) = 2"
  by code_simp

lemma example_validation_result: "fst (snd example_validation) = Inr validation_result"
  by code_simp

text \<open>
  C10. The counter \<^verbatim>\<open>rows\<close> is 0 in every snapshot a run yields, also in a run that an
  exception ends, and in the result it returns.
\<close>

theorem rows_counter_stays_zero:
  assumes "run E spreadsheet limit percentage vo import_file st = (snaps, r, st')"
  shows "(\<forall>s \<in> set snaps. Counter_get (snapshot_count s) ''rows'' = 0)
     \<and> (\<forall>res. r = Inr res \<longrightarrow> Counter_get (result_count res) ''rows'' = 0)"
proof -
  have k: "''rows'' \<notin> touched" by (simp add: touched_def)
  have z: "Counter_get (initial_count m s) ''rows'' = 0" for m s
    by (simp add: initial_count_def Counter_get_def)
  consider (again) "dir st \<noteq> None"
    | (nometa) "dir st = None" "\<forall>m. spreadsheet \<noteq> Loaded m"
    | (nobin) m where "dir st = None" "spreadsheet = Loaded m"
        "has_binaries m \<and> binaries_location (config (job st)) = None"
    | (loop) m where "dir st = None" "spreadsheet = Loaded m"
        "\<not> (has_binaries m \<and> binaries_location (config (job st)) = None)"
    by blast
  then show ?thesis
  proof cases
    case again
    with assms show ?thesis by (auto simp: run_def)
  next
    case nometa
    with assms show ?thesis
      by (cases spreadsheet) (auto simp: run_def split: prod.splits)
  next
    case nobin
    with assms show ?thesis
      by (auto simp: run_def split: prod.splits dest: start_run_job)
  next
    case loop
    obtain start st4 where s: "start_run E import_file st = (start, st4)"
      by (cases "start_run E import_file st")
    from run_loop [OF assms loop s] obtain e c where
      r: "run_rows E vo start (selected m limit percentage)
           (initial_count m st4) st4 = (snaps, e, c, st')"
      and res: "r = (case e of Some err \<Rightarrow> Inl err
             | None \<Rightarrow> Inr \<lparr>result_type = classify vo c st',
                  validation = validation_reports (job st'), result_count = c\<rparr>)"
      by blast
    from run_rows_other [OF k r] z res show ?thesis by (auto split: option.splits)
  qed
qed

theorem rows_counter_stays_zero_witness:
  "length (fst example_run) = 2
   \<and> list_all (\<lambda>s. Counter_get (snapshot_count s) ''rows'' = 0) (fst example_run)
   \<and> fst (snd example_run) = Inr example_result
   \<and> Counter_get (result_count example_result) ''rows'' = 0"
proof -
  have e: "run quiet (Loaded example_sheet) None None False None example_state
      = (fst example_run, fst (snd example_run), snd (snd example_run))"
    by (simp add: example_run_def)
  from rows_counter_stays_zero [OF e] example_run_result
  have "list_all (\<lambda>s. Counter_get (snapshot_count s) ''rows'' = 0) (fst example_run)"
    and "Counter_get (result_count example_result) ''rows'' = 0"
    by (simp_all add: list_all_iff)
  with example_run_snapshots example_run_result show ?thesis by simp
qed

text \<open>
  C3. A run that returns has loaded the metadata, its counter \<^verbatim>\<open>total_items\<close> is the
  number of rows of the metadata, and the type of its result is: validating only,
  \<^verbatim>\<open>validate_success\<close> if and only if the counter \<^verbatim>\<open>invalid_items\<close> is 0 and
  \<^verbatim>\<open>validate_failed\<close> otherwise; importing, \<^verbatim>\<open>import_complete\<close> if and only if the
  length of the job's completed ledger is the number of rows of the metadata, and
  \<^verbatim>\<open>import_incomplete\<close> otherwise.
\<close>

theorem terminal_classification:
  assumes "run E spreadsheet limit percentage vo import_file st = (snaps, Inr res, st')"
  shows "\<exists>m. spreadsheet = Loaded m
     \<and> Counter_get (result_count res) ''total_items'' = int (total m)
     \<and> (if vo
        then (result_type res = ''validate_success'')
               = (Counter_get (result_count res) ''invalid_items'' = 0)
             \<and> (result_type res = ''validate_failed'')
               = (Counter_get (result_count res) ''invalid_items'' \<noteq> 0)
        else (result_type res = ''import_complete'')
               = (ItemLog_len (completed_log (job st')) = total m)
             \<and> (result_type res = ''import_incomplete'')
               = (ItemLog_len (completed_log (job st')) \<noteq> total m))"
proof -
  have k: "''total_items'' \<notin> touched" by (simp add: touched_def)
  have d: "dir st = None" using assms by (auto simp: run_def split: if_splits)
  obtain m where m: "spreadsheet = Loaded m"
    using assms d by (cases spreadsheet) (auto simp: run_def split: prod.splits)
  have b: "\<not> (has_binaries m \<and> binaries_location (config (job st)) = None)"
    using assms d m by (auto simp: run_def split: prod.splits if_splits dest: start_run_job)
  obtain start st4 where s: "start_run E import_file st = (start, st4)"
    by (cases "start_run E import_file st")
  from run_loop [OF assms d m b s] obtain e c where
      r: "run_rows E vo start (selected m limit percentage)
           (initial_count m st4) st4 = (snaps, e, c, st')"
      and res: "Inr res = (case e of Some err \<Rightarrow> Inl err
             | None \<Rightarrow> Inr \<lparr>result_type = classify vo c st',
                  validation = validation_reports (job st'), result_count = c\<rparr>)"
      by blast
  from res have rt: "result_type res = classify vo c st'" and rc: "result_count res = c"
    by (auto split: option.splits)
  have "Counter_get (initial_count m st4) ''total_items'' = int (total m)"
    by (simp add: initial_count_def Counter_get_def)
  with run_rows_other [OF k r] rc have t: "Counter_get (result_count res) ''total_items'' = int (total m)"
    by simp
  from t rt rc m show ?thesis by (auto simp: classify_def)
qed





theorem terminal_classification_witness:
  "fst (snd example_run) = Inr example_result
   \<and> result_type example_result = ''import_incomplete''
   \<and> ItemLog_len (completed_log (job (snd (snd example_run)))) \<noteq> total example_sheet
   \<and> fst (snd example_validation) = Inr validation_result
   \<and> result_type validation_result = ''validate_failed''
   \<and> Counter_get (result_count validation_result) ''invalid_items'' \<noteq> 0"
proof -
  have e: "run quiet (Loaded example_sheet) None None False None example_state
      = (fst example_run, Inr example_result, snd (snd example_run))"
    using example_run_result by (simp add: example_run_def prod_eq_iff)
  have v: "run quiet (Loaded example_sheet) None None True None example_state
      = (fst example_validation, Inr validation_result, snd (snd example_validation))"
    using example_validation_result by (simp add: example_validation_def prod_eq_iff)
  have t: "result_type example_result = ''import_incomplete''"
    "result_type validation_result = ''validate_failed''"
    by (simp_all add: example_result_def validation_result_def)
  from terminal_classification [OF e] t(1)
  have 1: "ItemLog_len (completed_log (job (snd (snd example_run)))) \<noteq> total example_sheet"
    by auto
  from terminal_classification [OF v] t(2)
  have 2: "Counter_get (result_count validation_result) ''invalid_items'' \<noteq> 0"
    by auto
  from example_run_result example_validation_result t 1 2 show ?thesis by simp
qed

subsection \<open>Resuming a job\<close>

lemma drop_invalid_job: "drop_invalid E it lr reason st = (r, st') \<Longrightarrow> job st' = job st"
  by (auto simp: drop_invalid_def invalid_items_def datetimestamp_def Let_def
      split: prod.splits sum.splits option.splits)

lemma drop_failed_job: "drop_failed E it lr reason st = (r, st') \<Longrightarrow> job st' = job st"
  by (auto simp: drop_failed_def failed_items_def datetimestamp_def Let_def
      split: prod.splits sum.splits option.splits)

lemma append_keys: "ItemLog_append l fs0 row = (r, l', fs') \<Longrightarrow> item_keys l \<subseteq> item_keys l'"
  by (auto simp: ItemLog_append_def Let_def split: if_splits option.splits)

lemma complete_keys:
  "complete E it lr s st = (r, st') \<Longrightarrow>
     item_keys (completed_log (job st)) \<subseteq> item_keys (completed_log (job st'))"
proof -
  obtain r1 l1 fs1 where a: "ItemLog_append (completed_log (job st)) (files st)
      (completed_row it lr (utcnow_iso E (clock_reads st)) s) = (r1, l1, fs1)"
    by (cases "ItemLog_append (completed_log (job st)) (files st)
      (completed_row it lr (utcnow_iso E (clock_reads st)) s)")
  assume "complete E it lr s st = (r, st')"
  with a have "completed_log (job st') = l1"
    by (auto simp: complete_def datetimestamp_def Let_def)
  with append_keys [OF a] show ?thesis by simp
qed

lemma import_item_keys:
  "import_item E row it c st = (r, it', c', st') \<Longrightarrow>
     item_keys (completed_log (job st)) \<subseteq> item_keys (completed_log (job st'))"
  by (auto simp: import_item_def split: prod.splits sum.splits dest!: complete_keys)

lemma yield_status_job: "yield_status E start c st = (s, st') \<Longrightarrow> job st' = job st"
  by (auto simp: yield_status_def Let_def)

lemma after_import_keys:
  "after_import E start row (r, it, c, st) = (snaps, e, c', st') \<Longrightarrow> job st' = job st"
  by (cases "(E, start, row, (r, it, c, st))" rule: after_import.cases)
     (auto simp: Let_def split: prod.splits sum.splits dest!: drop_failed_job yield_status_job)

lemma process_row_keys:
  assumes "process_row E vo start x c st = (snaps, e, c', st')"
  shows "item_keys (completed_log (job st)) \<subseteq> item_keys (completed_log (job st'))"
proof (cases x)
  case (InvalidRow lr reason)
  with assms show ?thesis
    by (auto simp: process_row_def split: prod.splits sum.splits dest: drop_invalid_job)
next
  case (WellFormed row)
  let ?it = "get_object row (\<not> vo)"
  show ?thesis
  proof (cases "validate_item E (job st) row ?it")
    case (Inl err)
    with assms WellFormed show ?thesis by (auto simp: process_row_def Let_def)
  next
    case (Inr results)
    show ?thesis
    proof (cases "ok results \<and> \<not> vo")
      case False
      with assms WellFormed Inr show ?thesis
        by (auto simp: process_row_def Let_def split: prod.splits sum.splits if_splits
            dest: drop_invalid_job)
    next
      case True
      let ?c2 = "Counter_add (Counter_add c ''files'' (int (length (filenames row)))) ''valid_items'' 1"
      obtain r it1 c3 st3 where i: "import_item E row ?it ?c2 st = (r, it1, c3, st3)"
        by (cases "import_item E row ?it ?c2 st")
      from assms WellFormed Inr True i
      have a: "after_import E start row (r, it1, c3, st3) = (snaps, e, c', st')"
        by (simp add: process_row_def Let_def)
      from import_item_keys [OF i] after_import_keys [OF a] show ?thesis by simp
    qed
  qed
qed

lemma rows_skips_mono:
  "item_keys l0 \<subseteq> item_keys l \<Longrightarrow> rows_skips l0 x \<Longrightarrow> rows_skips l x"
  by (cases x) (auto simp: rows_skips_def ItemLog_contains_def)

lemma run_rows_filter:
  "item_keys l0 \<subseteq> item_keys (completed_log (job st)) \<Longrightarrow>
     run_rows E vo start (filter (\<lambda>x. \<not> rows_skips l0 x) xs) c st = run_rows E vo start xs c st"
proof (induction xs arbitrary: c st)
  case Nil
  then show ?case by simp
next
  case (Cons x xs)
  show ?case
  proof (cases "rows_skips (completed_log (job st)) x")
    case True
    with Cons show ?thesis by simp
  next
    case False
    with Cons.prems have n: "\<not> rows_skips l0 x" using rows_skips_mono by blast
    obtain s1 e1 c1 st1 where p: "process_row E vo start x c st = (s1, e1, c1, st1)"
      by (cases "process_row E vo start x c st")
    from process_row_keys [OF p] Cons.prems
    have "item_keys l0 \<subseteq> item_keys (completed_log (job st1))" by blast
    from Cons.IH [OF this] False n p show ?thesis by (cases e1) simp_all
  qed
qed

lemma row_stream_fresh:
  "item_keys l0 \<subseteq> item_keys (completed_log (job st)) \<Longrightarrow>
     x \<in> set (row_stream E vo start xs c st) \<Longrightarrow> \<not> rows_skips l0 x"
proof (induction xs arbitrary: c st)
  case Nil
  then show ?case by simp
next
  case (Cons y xs)
  show ?case
  proof (cases "rows_skips (completed_log (job st)) y")
    case True
    with Cons show ?thesis by simp
  next
    case False
    with Cons.prems(1) have n: "\<not> rows_skips l0 y" using rows_skips_mono by blast
    obtain s1 e1 c1 st1 where p: "process_row E vo start y c st = (s1, e1, c1, st1)"
      by (cases "process_row E vo start y c st")
    from process_row_keys [OF p] Cons.prems(1)
    have k: "item_keys l0 \<subseteq> item_keys (completed_log (job st1))" by blast
    from Cons.prems(2) False p have "x = y \<or> (e1 = None \<and> x \<in> set (row_stream E vo start xs c1 st1))"
      by (cases e1) auto
    with n Cons.IH [OF k] show ?thesis by blast
  qed
qed

text \<open>
  C1. The rows whose identifier is a key of the job's completed ledger when the loop
  begins take no part in it: the loop over the rows is the loop over the rows without
  them, no such row is in the row stream, and the run is the run of the sheet without
  them.
\<close>

theorem resumed_run_skips_completed_rows:
  "run_rows E vo start xs c st
     = run_rows E vo start (filter (\<lambda>x. \<not> rows_skips (completed_log (job st)) x) xs) c st
   \<and> (\<forall>row. WellFormed row \<in> set (row_stream E vo start xs c st) \<longrightarrow>
         \<not> ItemLog_contains (completed_log (job st)) (Some (row_identifier row)))
   \<and> run E (Loaded m) limit percentage vo import_file st
     = run E (Loaded (m\<lparr>selected := \<lambda>a b. filter (\<lambda>x. \<not> rows_skips (completed_log (job st)) x)
                                            (selected m a b)\<rparr>))
         limit percentage vo import_file st"
proof -
  have 1: "run_rows E vo start xs c st
     = run_rows E vo start (filter (\<lambda>x. \<not> rows_skips (completed_log (job st)) x) xs) c st"
    by (simp add: run_rows_filter)
  have 2: "\<not> ItemLog_contains (completed_log (job st)) (Some (row_identifier row))"
    if "WellFormed row \<in> set (row_stream E vo start xs c st)" for row
    using row_stream_fresh [OF subset_refl that] by (simp add: rows_skips_def)
  have 3: "run E (Loaded m) limit percentage vo import_file st
     = run E (Loaded (m\<lparr>selected := \<lambda>a b. filter (\<lambda>x. \<not> rows_skips (completed_log (job st)) x)
                                            (selected m a b)\<rparr>))
         limit percentage vo import_file st"
  proof -
    obtain s0 st4 where s: "start_run E import_file st = (s0, st4)"
      by (cases "start_run E import_file st")
    from start_run_job [OF s] have j: "job st4 = job st" .
    have i: "initial_count (m\<lparr>selected := f\<rparr>) st4 = initial_count m st4" for f
      by (simp add: initial_count_def)
    show ?thesis
      using run_rows_filter [of "completed_log (job st)" st4 E vo s0 "selected m limit percentage"
          "initial_count m st4"]
      by (simp add: run_def s j i)
  qed
  from 1 2 3 show ?thesis by blast
qed

lemma resumed_stream:
  "map row_ref (row_stream quiet False 0 example_rows [] resumed_state)
     = [''source.csv:3'', ''source.csv:4'', ''source.csv:5'']"
  by code_simp

lemma resumed_member:
  "WellFormed (example_row ''source.csv:3'' changed_item)
     \<in> set (row_stream quiet False 0 example_rows [] resumed_state)"
  by code_simp

theorem resumed_run_skips_completed_rows_witness:
  "ItemLog_contains (completed_log (job resumed_state)) (Some ''id-1'')
   \<and> map row_ref (row_stream quiet False 0 example_rows [] resumed_state)
       = [''source.csv:3'', ''source.csv:4'', ''source.csv:5'']
   \<and> WellFormed (example_row ''source.csv:3'' changed_item)
       \<in> set (row_stream quiet False 0 example_rows [] resumed_state)
   \<and> \<not> ItemLog_contains (completed_log (job resumed_state)) (Some ''id-2'')"
proof -
  have i: "row_identifier (example_row ''source.csv:3'' changed_item) = ''id-2''"
    by (simp add: example_row_def changed_item_def)
  have c: "ItemLog_contains (completed_log (job resumed_state)) (Some ''id-1'')"
    by (simp add: ItemLog_contains_def resumed_state_def)
  from resumed_run_skips_completed_rows [of quiet False 0 example_rows "[]" resumed_state]
    resumed_member i
  have "\<not> ItemLog_contains (completed_log (job resumed_state)) (Some ''id-2'')" by fastforce
  with c resumed_stream resumed_member show ?thesis by simp
qed

subsection \<open>The snapshots of a run\<close>

text \<open>
  C7. The loop body yields only at its end, which \<^verbatim>\<open>continue\<close> skips for an invalid
  row marker, for a row that fails validation and, when validating only, for every
  row. The example sheet hands four rows to the loop; validating only, the run yields
  no snapshot; importing, it yields two, for the two rows committed.
\<close>

theorem no_snapshot_for_unimported_rows:
  "map row_ref example_rows = [''source.csv:2'', ''source.csv:3'', ''source.csv:4'', ''source.csv:5'']
   \<and> map row_ref (row_stream quiet True (fst (start_run quiet None example_state)) example_rows
          (initial_count example_sheet example_state) (snd (start_run quiet None example_state)))
       = [''source.csv:2'', ''source.csv:3'', ''source.csv:4'', ''source.csv:5'']
   \<and> fst example_validation = []
   \<and> map row_ref (row_stream quiet False (fst (start_run quiet None example_state)) example_rows
          (initial_count example_sheet example_state) (snd (start_run quiet None example_state)))
       = [''source.csv:2'', ''source.csv:3'', ''source.csv:4'', ''source.csv:5'']
   \<and> map (\<lambda>s. Counter_get (snapshot_count s) ''valid_items'') (fst example_run) = [1, 2]"
  by code_simp

end
